theory Spec2Isabelle
  imports Main
begin

section \<open>Strings as the engine uses them\<close>

text \<open>
  JavaScript strings are modelled as \<open>string\<close>; a \<open>char\<close> stands for one code unit
  below 256.  \<open>is_space\<close> is the white space of \<open>String.prototype.trim\<close> and of the
  regular-expression class \<open>\s\<close> in that range: TAB, LF, VT, FF, CR, SPACE and NBSP.
  \<open>is_line_terminator\<close> is what the regular-expression dot refuses: LF and CR.
\<close>

definition LF :: char where
  "LF = CHR 0x0A"

definition CR :: char where
  "CR = CHR 0x0D"

definition is_space :: "char \<Rightarrow> bool" where
  "is_space c = (c \<in> set [CHR 0x09, CHR 0x0A, CHR 0x0B, CHR 0x0C, CHR 0x0D, CHR 0x20, CHR 0xA0])"

definition is_line_terminator :: "char \<Rightarrow> bool" where
  "is_line_terminator c = (c = LF \<or> c = CR)"

definition trim :: "string \<Rightarrow> string" where
  "trim s = rev (dropWhile is_space (rev (dropWhile is_space s)))"

text \<open>A text that \<open>trim\<close> has nothing to take from: no white space at either end.\<close>

definition is_trimmed :: "string \<Rightarrow> bool" where
  "is_trimmed s = (s = [] \<or> (\<not> is_space (hd s) \<and> \<not> is_space (last s)))"

fun starts_with :: "string \<Rightarrow> string \<Rightarrow> bool" where
  "starts_with [] s = True"
| "starts_with (p # ps) [] = False"
| "starts_with (p # ps) (c # cs) = (p = c \<and> starts_with ps cs)"

definition ends_with :: "string \<Rightarrow> string \<Rightarrow> bool" where
  "ends_with p s = starts_with (rev p) (rev s)"

fun includes_str :: "string \<Rightarrow> string \<Rightarrow> bool" where
  "includes_str p [] = (p = [])"
| "includes_str p (c # cs) = (starts_with p (c # cs) \<or> includes_str p cs)"

text \<open>\<open>code.split('\n')\<close>: always at least one piece.\<close>

fun split_nl :: "string \<Rightarrow> string list" where
  "split_nl [] = [[]]"
| "split_nl (c # cs) =
     (if c = LF then [] # split_nl cs
      else (case split_nl cs of [] \<Rightarrow> [[c]] | l # ls \<Rightarrow> (c # l) # ls))"

text \<open>\<open>lines.join('\n')\<close>.\<close>

fun join_nl :: "string list \<Rightarrow> string" where
  "join_nl [] = []"
| "join_nl [l] = l"
| "join_nl (l # m # ls) = l @ LF # join_nl (m # ls)"

text \<open>\<open>parts.join(' ')\<close>.\<close>

fun join_sp :: "string list \<Rightarrow> string" where
  "join_sp [] = []"
| "join_sp [l] = l"
| "join_sp (l # m # ls) = l @ CHR 0x20 # join_sp (m # ls)"

section \<open>Regular expressions of the renderer\<close>

text \<open>
  The patterns that the transform tests lines against are kept as regular expressions
  and decided by derivatives: \<open>rx_test\<close> is a match of the whole text, which is what
  \<open>pattern.test(text)\<close> decides for a pattern anchored at both ends, and \<open>rx_search\<close> is
  a match anywhere in the text, for a pattern without anchors.
\<close>

datatype rx =
    RNone
  | REps
  | RClass "char \<Rightarrow> bool"
  | RAlt rx rx
  | RSeq rx rx
  | RStar rx

fun rx_empty :: "rx \<Rightarrow> bool" where
  "rx_empty RNone = False"
| "rx_empty REps = True"
| "rx_empty (RClass p) = False"
| "rx_empty (RAlt a b) = (rx_empty a \<or> rx_empty b)"
| "rx_empty (RSeq a b) = (rx_empty a \<and> rx_empty b)"
| "rx_empty (RStar a) = True"

fun rx_after :: "char \<Rightarrow> rx \<Rightarrow> rx" where
  "rx_after c RNone = RNone"
| "rx_after c REps = RNone"
| "rx_after c (RClass p) = (if p c then REps else RNone)"
| "rx_after c (RAlt a b) = RAlt (rx_after c a) (rx_after c b)"
| "rx_after c (RSeq a b) =
     (if rx_empty a then RAlt (RSeq (rx_after c a) b) (rx_after c b)
      else RSeq (rx_after c a) b)"
| "rx_after c (RStar a) = RSeq (rx_after c a) (RStar a)"

fun rx_test :: "rx \<Rightarrow> string \<Rightarrow> bool" where
  "rx_test r [] = rx_empty r"
| "rx_test r (c # cs) = rx_test (rx_after c r) cs"

definition rx_any :: rx where
  "rx_any = RClass (\<lambda>c. True)"

definition rx_search :: "rx \<Rightarrow> string \<Rightarrow> bool" where
  "rx_search r s = rx_test (RSeq (RStar rx_any) (RSeq r (RStar rx_any))) s"

definition rx_char :: "char \<Rightarrow> rx" where
  "rx_char c = RClass (\<lambda>x. x = c)"

definition rx_not_char :: "char \<Rightarrow> rx" where
  "rx_not_char c = RClass (\<lambda>x. x \<noteq> c)"

text \<open>The dot: any character but a line terminator.\<close>

definition rx_dot :: rx where
  "rx_dot = RClass (\<lambda>x. \<not> is_line_terminator x)"

definition is_alpha :: "char \<Rightarrow> bool" where
  "is_alpha c = (let n = (of_char c :: nat) in (65 \<le> n \<and> n \<le> 90) \<or> (97 \<le> n \<and> n \<le> 122))"

definition is_num :: "char \<Rightarrow> bool" where
  "is_num c = (let n = (of_char c :: nat) in 48 \<le> n \<and> n \<le> 57)"

text \<open>\<open>\[[^\]]*\]\<close> and \<open>\([^)]*\)\<close>\<close>

definition rx_brackets :: rx where
  "rx_brackets = RSeq (rx_char CHR ''['') (RSeq (RStar (rx_not_char CHR '']'')) (rx_char CHR '']''))"

definition rx_parens :: rx where
  "rx_parens = RSeq (rx_char CHR ''('') (RSeq (RStar (rx_not_char CHR '')'')) (rx_char CHR '')''))"

text \<open>\<open>[a-zA-Z_$][a-zA-Z0-9_$]*\<close>\<close>

definition rx_js_ident :: rx where
  "rx_js_ident =
     RSeq (RClass (\<lambda>c. is_alpha c \<or> c = CHR ''_'' \<or> c = CHR ''$''))
          (RStar (RClass (\<lambda>c. is_alpha c \<or> is_num c \<or> c = CHR ''_'' \<or> c = CHR ''$'')))"

text \<open>\<open>(\.[a-zA-Z_$][a-zA-Z0-9_$]*|\[[^\]]*\]|\([^)]*\))\<close>\<close>

definition rx_js_suffix :: rx where
  "rx_js_suffix = RAlt (RSeq (rx_char CHR ''.'') rx_js_ident) (RAlt rx_brackets rx_parens)"

text \<open>The \<open>expressionPattern\<close> of \<open>autoLogExpressions\<close>, between its anchors.\<close>

definition expressionPattern :: rx where
  "expressionPattern = RSeq rx_js_ident (RSeq (RStar rx_js_suffix) (RStar rx_js_suffix))"

text \<open>\<open>[a-zA-Z_][a-zA-Z0-9_]*\<close>\<close>

definition rx_php_ident :: rx where
  "rx_php_ident =
     RSeq (RClass (\<lambda>c. is_alpha c \<or> c = CHR ''_''))
          (RStar (RClass (\<lambda>c. is_alpha c \<or> is_num c \<or> c = CHR ''_'')))"

text \<open>\<open>\$[a-zA-Z_][a-zA-Z0-9_]*\<close>, the simple variable.\<close>

definition rx_php_variable :: rx where
  "rx_php_variable = RSeq (rx_char CHR ''$'') rx_php_ident"

text \<open>
  \<open>(->[a-zA-Z_][a-zA-Z0-9_]*(\[.*?\]|\([^)]*\))*|\[[^\]]*\]|\([^)]*\))\<close>; the lazy
  star accepts the texts the greedy one accepts.
\<close>

definition rx_php_suffix :: rx where
  "rx_php_suffix =
     RAlt (RSeq (rx_char CHR ''-'') (RSeq (rx_char CHR ''>'')
             (RSeq rx_php_ident
                (RStar (RAlt (RSeq (rx_char CHR ''['') (RSeq (RStar rx_dot) (rx_char CHR '']'')))
                             rx_parens)))))
          (RAlt rx_brackets rx_parens)"

text \<open>The \<open>phpExpressionPattern\<close> of \<open>autoLogExpressionsPHP\<close>, between its anchors.\<close>

definition phpExpressionPattern :: rx where
  "phpExpressionPattern = RSeq rx_php_variable (RSeq (RStar rx_php_suffix) (RStar rx_php_suffix))"

text \<open>\<open>/=\s*[^=]/\<close>\<close>

definition rx_assignment :: rx where
  "rx_assignment = RSeq (rx_char CHR ''='') (RSeq (RStar (RClass is_space)) (rx_not_char CHR ''=''))"

section \<open>The auto-log transform (renderer.js, autoLogExpressions and autoLogExpressionsPHP)\<close>

text \<open>The three variables the loop over the lines carries.\<close>

record scan_state =
  inMultiLineComment :: bool
  braceDepth :: int
  parenDepth :: int

definition initial_scan :: scan_state where
  "initial_scan = \<lparr>inMultiLineComment = False, braceDepth = 0, parenDepth = 0\<rparr>"

text \<open>The loop \<open>for (const char of line)\<close>: one counter up on \<open>opening\<close>, down on \<open>closing\<close>.\<close>

fun depth_of :: "char \<Rightarrow> char \<Rightarrow> string \<Rightarrow> int" where
  "depth_of opening closing [] = 0"
| "depth_of opening closing (c # cs) =
     (if c = opening then 1 else if c = closing then - 1 else 0) + depth_of opening closing cs"

text \<open>\<open>trimmed.split(/\s|\(/)[0]\<close>\<close>

definition firstWord_of :: "string \<Rightarrow> string" where
  "firstWord_of trimmed = takeWhile (\<lambda>c. \<not> is_space c \<and> c \<noteq> CHR ''('') trimmed"

text \<open>\<open>trimmed.replace(/;$/, '')\<close>\<close>

definition withoutSemicolon_of :: "string \<Rightarrow> string" where
  "withoutSemicolon_of trimmed =
     (if trimmed \<noteq> [] \<and> last trimmed = CHR '';'' then butlast trimmed else trimmed)"

text \<open>\<open>line.match(/^\s*/)[0]\<close>\<close>

definition indent_of :: "string \<Rightarrow> string" where
  "indent_of line = takeWhile is_space line"

definition js_statementKeywords :: "string list" where
  "js_statementKeywords =
     [''const'', ''let'', ''var'', ''function'', ''class'', ''if'', ''else'', ''for'', ''while'',
      ''do'', ''switch'', ''case'', ''default'', ''try'', ''catch'', ''finally'', ''throw'',
      ''return'', ''break'', ''continue'', ''import'', ''export'', ''async'', ''await'', ''yield'',
      ''debugger'', ''with'', ''enum'', ''interface'', ''type'', ''namespace'']"

text \<open>The alternatives of the anchored keyword pattern that guards the wrapping.\<close>

definition js_leading_keywords :: "string list" where
  "js_leading_keywords =
     [''if'', ''for'', ''while'', ''switch'', ''catch'', ''function'', ''class'', ''const'', ''let'',
      ''var'', ''return'', ''break'', ''continue'', ''throw'', ''try'', ''else'', ''case'',
      ''default'', ''async'', ''await'', ''yield'', ''import'', ''export'']"

definition php_statementKeywords :: "string list" where
  "php_statementKeywords =
     [''function'', ''class'', ''if'', ''else'', ''elseif'', ''for'', ''foreach'', ''while'',
      ''do'', ''switch'', ''case'', ''default'', ''try'', ''catch'', ''finally'', ''throw'',
      ''return'', ''break'', ''continue'', ''goto'', ''declare'', ''namespace'', ''use'',
      ''abstract'', ''final'', ''private'', ''public'', ''protected'', ''static'', ''const'',
      ''require'', ''require_once'', ''include'', ''include_once'', ''echo'', ''print'',
      ''print_r'', ''var_dump'', ''var_export'']"

text \<open>The test that sends a line through as a statement, the same in both transforms.\<close>

definition clearly_statement :: "string list \<Rightarrow> string \<Rightarrow> bool" where
  "clearly_statement keywords trimmed =
     (firstWord_of trimmed \<in> set keywords \<or>
      starts_with ''{'' trimmed \<or>
      starts_with ''}'' trimmed \<or>
      ends_with ''{'' trimmed \<or>
      (includes_str '':'' trimmed \<and> \<not> includes_str ''?'' trimmed))"

definition js_hasAssignment :: "string \<Rightarrow> bool" where
  "js_hasAssignment trimmed =
     (rx_search rx_assignment trimmed \<and> \<not> includes_str ''=='' trimmed \<and>
      \<not> includes_str ''==='' trimmed \<and> \<not> includes_str ''!='' trimmed \<and>
      \<not> includes_str ''!=='' trimmed \<and> \<not> includes_str ''=>'' trimmed)"

definition php_hasAssignment :: "string \<Rightarrow> bool" where
  "php_hasAssignment trimmed =
     (rx_search rx_assignment trimmed \<and> \<not> includes_str ''=='' trimmed \<and>
      \<not> includes_str ''==='' trimmed \<and> \<not> includes_str ''!='' trimmed \<and>
      \<not> includes_str ''!=='' trimmed \<and> \<not> includes_str ''=>'' trimmed \<and>
      \<not> includes_str ''<=>'' trimmed)"

text \<open>
  What the body of the loop does after the comment checks and the depth count, in
  \<open>autoLogExpressions\<close>: the line pushed to \<open>processedLines\<close>.  The depths are those
  after the line has been counted.
\<close>

definition js_wrap :: "string \<Rightarrow> string \<Rightarrow> int \<Rightarrow> int \<Rightarrow> string" where
  "js_wrap line trimmed brace paren =
     (if clearly_statement js_statementKeywords trimmed then line
      else
        let hasAssignment = js_hasAssignment trimmed;
            withoutSemicolon = withoutSemicolon_of trimmed
        in if \<not> hasAssignment \<and> brace \<le> 0 \<and> paren \<le> 0 then
             (let looksLikeExpression =
                    (rx_test expressionPattern withoutSemicolon \<or> rx_test rx_js_ident withoutSemicolon)
              in if looksLikeExpression \<and> length withoutSemicolon > 0 \<and>
                    \<not> (\<exists>k \<in> set js_leading_keywords. starts_with k trimmed) then
                   (if starts_with ''console.log'' (trim withoutSemicolon) \<or>
                       starts_with ''console.error'' (trim withoutSemicolon) \<or>
                       starts_with ''console.warn'' (trim withoutSemicolon) \<or>
                       starts_with ''console.info'' (trim withoutSemicolon) then line
                    else indent_of line @ ''console.log('' @ withoutSemicolon @ '');'')
                 else line)
           else line)"

text \<open>
  The end of a wrapped PHP line: comma, \<open>true\<close>, closing parenthesis, the
  concatenation dot, the double-quoted two-character escape for a newline, semicolon.
\<close>

definition php_echo_tail :: string where
  "php_echo_tail = '', true) . '' @ [CHR 0x22, CHR 0x5C, CHR ''n'', CHR 0x22] @ '';''"

text \<open>The same part of the loop body in \<open>autoLogExpressionsPHP\<close>.\<close>

definition php_wrap :: "string \<Rightarrow> string \<Rightarrow> int \<Rightarrow> int \<Rightarrow> string" where
  "php_wrap line trimmed brace paren =
     (if clearly_statement php_statementKeywords trimmed then line
      else
        let hasAssignment = php_hasAssignment trimmed;
            withoutSemicolon = withoutSemicolon_of trimmed
        in if \<not> hasAssignment \<and> brace \<le> 0 \<and> paren \<le> 0 then
             (let looksLikeExpression =
                    (rx_test phpExpressionPattern withoutSemicolon \<or>
                     rx_test rx_php_variable withoutSemicolon)
              in if looksLikeExpression \<and> length withoutSemicolon > 0 then
                   (let exprTrimmed = trim withoutSemicolon
                    in if starts_with ''echo'' exprTrimmed \<or>
                          starts_with ''print'' exprTrimmed \<or>
                          starts_with ''print_r'' exprTrimmed \<or>
                          starts_with ''var_dump'' exprTrimmed \<or>
                          starts_with ''var_export'' exprTrimmed then line
                       else
                         let isSimpleVar = rx_test rx_php_variable withoutSemicolon
                         in if isSimpleVar then
                              indent_of line @ ''echo var_export('' @ withoutSemicolon
                                @ php_echo_tail
                            else
                              indent_of line @ ''echo print_r('' @ withoutSemicolon
                                @ php_echo_tail)
                 else line)
           else line)"

text \<open>
  One turn of the loop: the line pushed and the state after it.  The first argument
  is the part of the body that differs between the two languages.
\<close>

definition scan_line :: "(string \<Rightarrow> string \<Rightarrow> int \<Rightarrow> int \<Rightarrow> string) \<Rightarrow> string \<Rightarrow> scan_state
    \<Rightarrow> string \<times> scan_state" where
  "scan_line wrap line st =
     (let trimmed = trim line
      in if trimmed = [] \<or> starts_with ''//'' trimmed then (line, st)
         else if includes_str ''/*'' trimmed then
           (line, st\<lparr>inMultiLineComment := \<not> includes_str ''*/'' trimmed\<rparr>)
         else if includes_str ''*/'' trimmed then (line, st\<lparr>inMultiLineComment := False\<rparr>)
         else if inMultiLineComment st then (line, st)
         else
           let st' = st\<lparr>braceDepth := braceDepth st + depth_of CHR ''{'' CHR ''}'' line,
                        parenDepth := parenDepth st + depth_of CHR ''('' CHR '')'' line\<rparr>
           in (wrap line trimmed (braceDepth st') (parenDepth st'), st'))"

fun scan_lines :: "(string \<Rightarrow> string \<Rightarrow> int \<Rightarrow> int \<Rightarrow> string) \<Rightarrow> string list \<Rightarrow> scan_state
    \<Rightarrow> string list" where
  "scan_lines wrap [] st = []"
| "scan_lines wrap (line # rest) st =
     fst (scan_line wrap line st) # scan_lines wrap rest (snd (scan_line wrap line st))"

definition autoLogExpressions :: "string \<Rightarrow> string" where
  "autoLogExpressions code =
     (if code = [] \<or> trim code = [] then code
      else join_nl (scan_lines js_wrap (split_nl code) initial_scan))"

definition autoLogExpressionsPHP :: "string \<Rightarrow> string" where
  "autoLogExpressionsPHP code =
     (if code = [] \<or> trim code = [] then code
      else join_nl (scan_lines php_wrap (split_nl code) initial_scan))"

text \<open>
  A line that already is an output call: its text, without the surrounding white
  space, starts with the name of an output call of the language.
\<close>

definition js_output_call :: "string \<Rightarrow> bool" where
  "js_output_call line =
     (starts_with ''console.log'' (trim line) \<or> starts_with ''console.error'' (trim line) \<or>
      starts_with ''console.warn'' (trim line) \<or> starts_with ''console.info'' (trim line))"

definition php_output_call :: "string \<Rightarrow> bool" where
  "php_output_call line =
     (starts_with ''echo'' (trim line) \<or> starts_with ''print'' (trim line) \<or>
      starts_with ''print_r'' (trim line) \<or> starts_with ''var_dump'' (trim line) \<or>
      starts_with ''var_export'' (trim line))"

section \<open>The magic-comment extractor (renderer.js, processMagicComments)\<close>

record magic_comment =
  mc_line :: nat
  mc_expression :: string

record processed_code =
  pc_code :: string
  pc_magicComments :: "magic_comment list"

text \<open>
  The pattern \<open>/\/\/\s*\$\s*(.+)/\<close>, split at the dollar sign.
  \<open>capture_group\<close> is \<open>\s*(.+)\<close> on the text after the dollar: the white-space run is
  taken greedily and given back one character at a time until the group finds a
  character that the dot accepts; the group then runs to the next line terminator.
\<close>

definition capture_group :: "string \<Rightarrow> string option" where
  "capture_group r =
     (case dropWhile is_space r of
        c # cs \<Rightarrow> Some (takeWhile (\<lambda>x. \<not> is_line_terminator x) (c # cs))
      | [] \<Rightarrow> (case dropWhile is_line_terminator (rev r) of
                 [] \<Rightarrow> None
               | c # cs \<Rightarrow> Some [c]))"

text \<open>\<open>\s*\$\s*(.+)\<close> on the text that follows the two slashes.\<close>

definition after_slashes :: "string \<Rightarrow> string option" where
  "after_slashes t =
     (case dropWhile is_space t of
        [] \<Rightarrow> None
      | c # cs \<Rightarrow> if c = CHR ''$'' then capture_group cs else None)"

text \<open>\<open>line.match(...)\<close>: the leftmost start position that matches; the result is group 1.\<close>

fun magic_match :: "string \<Rightarrow> string option" where
  "magic_match [] = None"
| "magic_match (c # cs) =
     (case (if starts_with ''//'' (c # cs) then after_slashes (drop 2 (c # cs)) else None) of
        Some g \<Rightarrow> Some g
      | None \<Rightarrow> magic_match cs)"

text \<open>
  The body of \<open>lines.forEach((line, index) => ...)\<close>: the state is the pair of the two
  arrays \<open>magicComments\<close> and \<open>processedLines\<close>; both branches push the line itself.
\<close>

fun forEach_line :: "nat \<Rightarrow> string list \<Rightarrow> magic_comment list \<times> string list
    \<Rightarrow> magic_comment list \<times> string list" where
  "forEach_line index [] acc = acc"
| "forEach_line index (line # rest) (magicComments, processedLines) =
     (case magic_match line of
        Some g \<Rightarrow> forEach_line (Suc index) rest
          (magicComments @ [\<lparr>mc_line = index + 1, mc_expression = trim g\<rparr>],
           processedLines @ [line])
      | None \<Rightarrow> forEach_line (Suc index) rest (magicComments, processedLines @ [line]))"

definition processMagicComments :: "string \<Rightarrow> processed_code" where
  "processMagicComments code =
     (let (magicComments, processedLines) = forEach_line 0 (split_nl code) ([], [])
      in \<lparr>pc_code = join_nl processedLines, pc_magicComments = magicComments\<rparr>)"

text \<open>
  What the extractor is meant to compute, written as a comprehension over the
  numbered lines: one record per line that matches, numbered from 1.
\<close>

definition probes_of_lines :: "nat \<Rightarrow> string list \<Rightarrow> magic_comment list" where
  "probes_of_lines start ls =
     List.map_filter
       (\<lambda>(i, l). map_option (\<lambda>g. \<lparr>mc_line = i + 1, mc_expression = trim g\<rparr>) (magic_match l))
       (enumerate start ls)"

section \<open>The console shim of the JavaScript harness (executeJavaScript, script header)\<close>

text \<open>
  A value handed to a console method.  The harness only asks four things of it: whether
  it is \<open>undefined\<close>, whether it is \<open>null\<close>, a function or an object, and the texts that
  \<open>toString\<close>, \<open>JSON.stringify(value, null, 2)\<close> and \<open>String(value)\<close> give; those texts
  are carried by the value.  \<open>None\<close> for the stringified form is a throwing
  \<open>JSON.stringify\<close> (a circular object).
\<close>

datatype js_value =
    JsUndefined
  | JsNull
  | JsFunction (fn_source: string)
  | JsObject (obj_json: "string option") (obj_string: string)
  | JsPrimitive (prim_string: string)

datatype console_kind = Log | Error | Warn | Info

fun kind_name :: "console_kind \<Rightarrow> string" where
  "kind_name Log = ''log''"
| "kind_name Error = ''error''"
| "kind_name Warn = ''warn''"
| "kind_name Info = ''info''"

record log_entry =
  le_type :: string
  le_args :: string

fun safeStringify :: "js_value \<Rightarrow> string" where
  "safeStringify JsNull = ''null''"
| "safeStringify JsUndefined = ''undefined''"
| "safeStringify (JsFunction src) = src"
| "safeStringify (JsObject (Some j) s) = j"
| "safeStringify (JsObject None s) = s"
| "safeStringify (JsPrimitive s) = s"

text \<open>
  One call \<open>console.<kind>(...args)\<close> against the buffer \<open>__output\<close>.  The four methods
  differ only in the \<open>type\<close> they record (and in the stream of the original console
  they echo to, which is not part of the buffer).
\<close>

definition console_call :: "console_kind \<Rightarrow> js_value list \<Rightarrow> log_entry list \<Rightarrow> log_entry list" where
  "console_call kind args output =
     (let filteredArgs = filter (\<lambda>a. a \<noteq> JsUndefined) args
      in if length filteredArgs = 0 then output
         else let formatted = join_sp (map safeStringify filteredArgs)
              in output @ [\<lparr>le_type = kind_name kind, le_args = formatted\<rparr>])"

text \<open>A run of console calls, in program order.\<close>

fun console_calls :: "(console_kind \<times> js_value list) list \<Rightarrow> log_entry list \<Rightarrow> log_entry list" where
  "console_calls [] output = output"
| "console_calls ((kind, args) # rest) output = console_calls rest (console_call kind args output)"

section \<open>String searches of the close handlers\<close>

text \<open>The first position at which the pattern occurs, if any.\<close>

fun find_first :: "string \<Rightarrow> string \<Rightarrow> nat option" where
  "find_first p [] = (if p = [] then Some 0 else None)"
| "find_first p (c # cs) =
     (if starts_with p (c # cs) then Some 0 else map_option Suc (find_first p cs))"

text \<open>
  \<open>hay.indexOf(needle, from)\<close>: the start position is clamped to the string, the answer
  is \<open>-1\<close> when there is no occurrence.
\<close>

definition indexOf :: "string \<Rightarrow> string \<Rightarrow> int \<Rightarrow> int" where
  "indexOf hay needle from =
     (let k = nat (max 0 (min from (int (length hay))))
      in case find_first needle (drop k hay) of
           None \<Rightarrow> - 1
         | Some i \<Rightarrow> int (k + i))"

text \<open>
  \<open>s.substring(a, b)\<close>: both indices are clamped to the string and swapped when the
  first is the larger.
\<close>

definition substring :: "string \<Rightarrow> int \<Rightarrow> int \<Rightarrow> string" where
  "substring s a b =
     (let n = int (length s);
          a' = max 0 (min a n);
          b' = max 0 (min b n);
          lo = min a' b';
          hi = max a' b'
      in take (nat (hi - lo)) (drop (nat lo) s))"

text \<open>
  \<open>stdout.match(/\{[\s\S]*\}/)\<close>: from the first opening brace to the last closing
  brace after it.
\<close>

definition brace_match :: "string \<Rightarrow> string option" where
  "brace_match s =
     (case dropWhile (\<lambda>c. c \<noteq> CHR ''{'') s of
        [] \<Rightarrow> None
      | b # rest \<Rightarrow>
          (case dropWhile (\<lambda>c. c \<noteq> CHR ''}'') (rev rest) of
             [] \<Rightarrow> None
           | e # body \<Rightarrow> Some (b # rev (e # body))))"

section \<open>Structured values and a reference JSON reader\<close>

text \<open>
  The values that travel through \<open>resolve\<close>: JSON values, and \<open>undefined\<close> for the
  \<open>value\<close> field of the results the engine builds itself.  A number keeps its lexeme.
  An object keeps its members in source order; \<open>field\<close> reads the last binding of a
  name, as a JavaScript object does after parsing duplicate keys.
\<close>

datatype json =
    JUndefined
  | JNull
  | JBool bool
  | JNumber string
  | JString string
  | JArray "json list"
  | JObject "(string \<times> json) list"

definition field :: "string \<Rightarrow> (string \<times> json) list \<Rightarrow> json option" where
  "field k fs = map_of (rev fs) k"

text \<open>
  The shape of an ExecutionResult: an object whose \<open>output\<close> is a list, whose \<open>error\<close>
  is an object or null, and which has a \<open>value\<close> field.
\<close>

definition well_formed_result :: "json \<Rightarrow> bool" where
  "well_formed_result r =
     (case r of
        JObject fs \<Rightarrow>
          (case field ''output'' fs of Some (JArray xs) \<Rightarrow> True | _ \<Rightarrow> False) \<and>
          (case field ''error'' fs of Some JNull \<Rightarrow> True | Some (JObject e) \<Rightarrow> True | _ \<Rightarrow> False) \<and>
          (case field ''value'' fs of Some v \<Rightarrow> True | None \<Rightarrow> False)
      | _ \<Rightarrow> False)"

text \<open>
  \<open>JSON.parse\<close> belongs to the platform, so the handlers below take it as a parameter
  of type \<open>string \<Rightarrow> string + json\<close> (\<open>Inl\<close> carries the message of the exception it
  throws).  \<open>JSON_parse\<close> is a reference reader of the JSON grammar, used to run the
  handlers on concrete output.  Escapes \<open>\uXXXX\<close> of 256 and more lie outside the
  alphabet of this model and are refused by the reference reader.
\<close>

definition json_ws :: "char \<Rightarrow> bool" where
  "json_ws c = (c = CHR 0x20 \<or> c = CHR 0x09 \<or> c = LF \<or> c = CR)"

definition skip_ws :: "string \<Rightarrow> string" where
  "skip_ws s = dropWhile json_ws s"

definition is_digit :: "char \<Rightarrow> bool" where
  "is_digit c = (48 \<le> (of_char c :: nat) \<and> (of_char c :: nat) \<le> 57)"

definition hex_value :: "char \<Rightarrow> nat option" where
  "hex_value c =
     (let n = (of_char c :: nat)
      in if 48 \<le> n \<and> n \<le> 57 then Some (n - 48)
         else if 97 \<le> n \<and> n \<le> 102 then Some (n - 87)
         else if 65 \<le> n \<and> n \<le> 70 then Some (n - 55)
         else None)"

definition hex4 :: "char \<Rightarrow> char \<Rightarrow> char \<Rightarrow> char \<Rightarrow> nat option" where
  "hex4 a b c d =
     (case (hex_value a, hex_value b, hex_value c, hex_value d) of
        (Some w, Some x, Some y, Some z) \<Rightarrow> Some (((w * 16 + x) * 16 + y) * 16 + z)
      | _ \<Rightarrow> None)"

definition unescape :: "char \<Rightarrow> char option" where
  "unescape e =
     (if e = CHR 0x22 then Some (CHR 0x22)
      else if e = CHR 0x5C then Some (CHR 0x5C)
      else if e = CHR ''/'' then Some (CHR ''/'')
      else if e = CHR ''b'' then Some (CHR 0x08)
      else if e = CHR ''f'' then Some (CHR 0x0C)
      else if e = CHR ''n'' then Some LF
      else if e = CHR ''r'' then Some CR
      else if e = CHR ''t'' then Some (CHR 0x09)
      else None)"

definition cons_result :: "char \<Rightarrow> (string \<times> string) option \<Rightarrow> (string \<times> string) option" where
  "cons_result c r = map_option (\<lambda>(s, rest). (c # s, rest)) r"

text \<open>The characters of a string literal after its opening quote, up to the closing one.\<close>

fun parse_chars :: "string \<Rightarrow> (string \<times> string) option" where
  "parse_chars [] = None"
| "parse_chars (c # cs) =
     (if c = CHR 0x22 then Some ([], cs)
      else if c = CHR 0x5C then
        (case cs of
           [] \<Rightarrow> None
         | e # r \<Rightarrow>
             if e = CHR ''u'' then
               (case r of
                  h1 # h2 # h3 # h4 # r' \<Rightarrow>
                    (case hex4 h1 h2 h3 h4 of
                       Some n \<Rightarrow> if n < 256 then cons_result (char_of n) (parse_chars r') else None
                     | None \<Rightarrow> None)
                | _ \<Rightarrow> None)
             else
               (case unescape e of
                  Some d \<Rightarrow> cons_result d (parse_chars r)
                | None \<Rightarrow> None))
      else if (of_char c :: nat) < 32 then None
      else cons_result c (parse_chars cs))"

text \<open>
  A number: an optional minus, \<open>0\<close> or a digit run without leading zero, an optional
  fraction, an optional exponent.  The result is the lexeme and the rest.
\<close>

definition digits1 :: "string \<Rightarrow> (string \<times> string) option" where
  "digits1 s =
     (if takeWhile is_digit s = [] then None
      else Some (takeWhile is_digit s, dropWhile is_digit s))"

definition parse_int_part :: "string \<Rightarrow> (string \<times> string) option" where
  "parse_int_part s =
     (case s of
        [] \<Rightarrow> None
      | c # cs \<Rightarrow> if c = CHR ''0'' then Some (''0'', cs) else digits1 s)"

definition parse_frac :: "string \<Rightarrow> (string \<times> string) option" where
  "parse_frac s =
     (case s of
        c # cs \<Rightarrow>
          if c = CHR ''.'' then map_option (\<lambda>(d, r). (c # d, r)) (digits1 cs) else Some ([], s)
      | [] \<Rightarrow> Some ([], s))"

definition parse_exp :: "string \<Rightarrow> (string \<times> string) option" where
  "parse_exp s =
     (case s of
        c # cs \<Rightarrow>
          if c = CHR ''e'' \<or> c = CHR ''E'' then
            (case cs of
               g # ds \<Rightarrow>
                 if g = CHR ''+'' \<or> g = CHR ''-''
                 then map_option (\<lambda>(d, r). (c # g # d, r)) (digits1 ds)
                 else map_option (\<lambda>(d, r). (c # d, r)) (digits1 cs)
             | [] \<Rightarrow> None)
          else Some ([], s)
      | [] \<Rightarrow> Some ([], s))"

definition parse_number :: "string \<Rightarrow> (string \<times> string) option" where
  "parse_number s =
     (let (sign, s1) = (case s of c # cs \<Rightarrow> if c = CHR ''-'' then ([c], cs) else ([], s) | [] \<Rightarrow> ([], s))
      in case parse_int_part s1 of
           None \<Rightarrow> None
         | Some (i, s2) \<Rightarrow>
             (case parse_frac s2 of
                None \<Rightarrow> None
              | Some (f, s3) \<Rightarrow>
                  (case parse_exp s3 of
                     None \<Rightarrow> None
                   | Some (e, s4) \<Rightarrow> Some (sign @ i @ f @ e, s4))))"

text \<open>
  Values, the elements of an array after its opening bracket and the members of an
  object after its opening brace.  The first argument bounds the depth of the calls;
  every call made with it reads at least one character first.
\<close>

fun parse_value :: "nat \<Rightarrow> string \<Rightarrow> (json \<times> string) option"
  and parse_elements :: "nat \<Rightarrow> string \<Rightarrow> (json list \<times> string) option"
  and parse_members :: "nat \<Rightarrow> string \<Rightarrow> ((string \<times> json) list \<times> string) option" where
  "parse_value 0 s = None"
| "parse_value (Suc n) s =
     (case skip_ws s of
        [] \<Rightarrow> None
      | c # cs \<Rightarrow>
          if c = CHR ''{'' then
            (case skip_ws cs of
               [] \<Rightarrow> None
             | d # r \<Rightarrow> if d = CHR ''}'' then Some (JObject [], r)
                        else map_option (\<lambda>(ms, r'). (JObject ms, r')) (parse_members n cs))
          else if c = CHR ''['' then
            (case skip_ws cs of
               [] \<Rightarrow> None
             | d # r \<Rightarrow> if d = CHR '']'' then Some (JArray [], r)
                        else map_option (\<lambda>(vs, r'). (JArray vs, r')) (parse_elements n cs))
          else if c = CHR 0x22 then map_option (\<lambda>(t, r). (JString t, r)) (parse_chars cs)
          else if starts_with ''true'' (c # cs) then Some (JBool True, drop 4 (c # cs))
          else if starts_with ''false'' (c # cs) then Some (JBool False, drop 5 (c # cs))
          else if starts_with ''null'' (c # cs) then Some (JNull, drop 4 (c # cs))
          else map_option (\<lambda>(t, r). (JNumber t, r)) (parse_number (c # cs)))"
| "parse_elements 0 s = None"
| "parse_elements (Suc n) s =
     (case parse_value n s of
        None \<Rightarrow> None
      | Some (v, r) \<Rightarrow>
          (case skip_ws r of
             [] \<Rightarrow> None
           | d # r' \<Rightarrow>
               if d = CHR '','' then map_option (\<lambda>(vs, r''). (v # vs, r'')) (parse_elements n r')
               else if d = CHR '']'' then Some ([v], r')
               else None))"
| "parse_members 0 s = None"
| "parse_members (Suc n) s =
     (case skip_ws s of
        [] \<Rightarrow> None
      | q # ks \<Rightarrow>
          if q \<noteq> CHR 0x22 then None
          else
            (case parse_chars ks of
               None \<Rightarrow> None
             | Some (k, r) \<Rightarrow>
                 (case skip_ws r of
                    [] \<Rightarrow> None
                  | colon # r1 \<Rightarrow>
                      if colon \<noteq> CHR '':'' then None
                      else
                        (case parse_value n r1 of
                           None \<Rightarrow> None
                         | Some (v, r2) \<Rightarrow>
                             (case skip_ws r2 of
                                [] \<Rightarrow> None
                              | d # r3 \<Rightarrow>
                                  if d = CHR '','' then
                                    map_option (\<lambda>(ms, r4). ((k, v) # ms, r4)) (parse_members n r3)
                                  else if d = CHR ''}'' then Some ([(k, v)], r3)
                                  else None)))))"

definition JSON_parse :: "string \<Rightarrow> string + json" where
  "JSON_parse s =
     (case parse_value (2 * length s + 2) s of
        None \<Rightarrow> Inl ''Unexpected token in JSON''
      | Some (v, r) \<Rightarrow> if skip_ws r = [] then Inr v else Inl ''Unexpected token in JSON'')"

section \<open>The process execution manager (executeJavaScript, executePHP, stop-execution)\<close>

text \<open>
  The state the handlers act on: the registry \<open>executionProcesses\<close> (a JavaScript
  \<open>Map\<close>, kept in insertion order), the files of the temporary directory, the
  processes that were sent a kill signal, and the values passed to \<open>resolve\<close> of the
  promise of the execution under consideration, in call order (a promise settles with
  the first of them; \<open>executeJavaScript\<close> and \<open>executePHP\<close> build their promise from
  \<open>resolve\<close> alone and never reject).
\<close>

record 'p world =
  executionProcesses :: "(string \<times> 'p) list"
  files :: "string \<rightharpoonup> string"
  killed :: "'p list"
  resolved :: "json list"

text \<open>What the closures of one execution hold when an event of its child arrives.\<close>

record execution =
  execId :: string
  scriptPath :: string
  executable :: string
  stdout :: string
  stderr :: string

record spawn_error =
  err_message :: string
  err_code :: "string option"

text \<open>
  The object that \<open>child_process\<close> passes to the \<open>error\<close> listener when the spawn of
  \<open>exe\<close> fails with the code \<open>code\<close>: its message is \<open>spawn <exe> <code>\<close>.
\<close>

definition spawn_error_event :: "string \<Rightarrow> string \<Rightarrow> spawn_error" where
  "spawn_error_event exe code =
     \<lparr>err_message = ''spawn '' @ exe @ '' '' @ code, err_code = Some code\<rparr>"

fun map_set :: "string \<Rightarrow> 'p \<Rightarrow> (string \<times> 'p) list \<Rightarrow> (string \<times> 'p) list" where
  "map_set k v [] = [(k, v)]"
| "map_set k v ((k', v') # m) = (if k' = k then (k, v) # m else (k', v') # map_set k v m)"

definition map_delete :: "string \<Rightarrow> (string \<times> 'p) list \<Rightarrow> (string \<times> 'p) list" where
  "map_delete k m = filter (\<lambda>(k', v). k' \<noteq> k) m"

text \<open>\<open>n.toString()\<close> of an integer, in decimal.\<close>

fun show_nat :: "nat \<Rightarrow> string" where
  "show_nat n =
     (if n < 10 then [''0123456789'' ! n]
      else show_nat (n div 10) @ [''0123456789'' ! (n mod 10)])"

declare show_nat.simps [simp del]

definition show_int :: "int \<Rightarrow> string" where
  "show_int i = (if i < 0 then CHR ''-'' # show_nat (nat (- i)) else show_nat (nat i))"

text \<open>
  The start of an execution, up to the registration of the child: \<open>now\<close> is the reading
  of \<open>Date.now()\<close>, \<open>tmpdir\<close> the directory of \<open>os.tmpdir()\<close>, \<open>script\<close> the instrumented
  script, \<open>exe\<close> the interpreter found and \<open>child\<close> the process spawned.
\<close>

definition begin_js :: "int \<Rightarrow> string \<Rightarrow> string \<Rightarrow> string \<Rightarrow> 'p \<Rightarrow> 'p world
    \<Rightarrow> execution \<times> 'p world" where
  "begin_js now tmpdir script exe child w =
     (let id = show_int now;
          path = tmpdir @ ''/fasttinker-js-'' @ id @ ''.js''
      in (\<lparr>execId = id, scriptPath = path, executable = exe, stdout = [], stderr = []\<rparr>,
          w\<lparr>files := (files w)(path \<mapsto> script),
            executionProcesses := map_set id child (executionProcesses w)\<rparr>))"


text \<open>The \<open>data\<close> events of the two streams append to the buffers.\<close>

definition on_stdout_data :: "string \<Rightarrow> execution \<Rightarrow> execution" where
  "on_stdout_data d ex = ex\<lparr>stdout := stdout ex @ d\<rparr>"

definition on_stderr_data :: "string \<Rightarrow> execution \<Rightarrow> execution" where
  "on_stderr_data d ex = ex\<lparr>stderr := stderr ex @ d\<rparr>"

subsection \<open>The results the handlers build\<close>

definition js_START :: string where
  "js_START = ''__FASTTINKER_JS_RESULT_START__''"

definition js_END :: string where
  "js_END = ''__FASTTINKER_JS_RESULT_END__''"

definition php_START :: string where
  "php_START = ''__FASTTINKER_PHP_RESULT_START__''"

definition php_END :: string where
  "php_END = ''__FASTTINKER_PHP_RESULT_END__''"

text \<open>\<open>{ output: [], error: { message: msg }, value: undefined }\<close>\<close>

definition error_result :: "string \<Rightarrow> json" where
  "error_result msg =
     JObject [(''output'', JArray []),
              (''error'', JObject [(''message'', JString msg)]),
              (''value'', JUndefined)]"

text \<open>\<open>{ output: [], error: null, value: undefined }\<close>\<close>

definition empty_result :: json where
  "empty_result = JObject [(''output'', JArray []), (''error'', JNull), (''value'', JUndefined)]"

text \<open>\<open>{ output: [{ type: 'log', args: text }], error: null, value: undefined, magicComments: [] }\<close>\<close>

definition raw_stdout_result :: "string \<Rightarrow> json" where
  "raw_stdout_result text =
     JObject [(''output'', JArray [JObject [(''type'', JString ''log''), (''args'', JString text)]]),
              (''error'', JNull),
              (''value'', JUndefined),
              (''magicComments'', JArray [])]"

text \<open>
  \<open>{ output: [], error: { message: msg, code: error.code }, value: undefined }\<close> of the
  \<open>error\<close> handlers.
\<close>

definition spawn_error_result :: "string \<Rightarrow> string option \<Rightarrow> json" where
  "spawn_error_result msg code =
     JObject [(''output'', JArray []),
              (''error'', JObject [(''message'', JString msg),
                                   (''code'', (case code of None \<Rightarrow> JUndefined | Some c \<Rightarrow> JString c))]),
              (''value'', JUndefined)]"

subsection \<open>The close handlers\<close>

text \<open>
  The \<open>try\<close> block of the close handler of \<open>executeJavaScript\<close>: \<open>Inr\<close> is the value it
  passes to \<open>resolve\<close>, \<open>Inl\<close> the message of the exception that leaves the block
  (only \<open>JSON.parse\<close> throws there).  \<open>js_payload\<close> is the first branch of the handler
  up to the call of \<open>JSON.parse\<close>: the text between the sentinels, when both are found.
\<close>

definition js_payload :: "string \<Rightarrow> string option" where
  "js_payload out =
     (let resultStart = indexOf out (js_START @ [LF]) 0;
          resultEnd = indexOf out (LF # js_END) resultStart
      in if resultStart \<noteq> - 1 \<and> resultEnd \<noteq> - 1 then
           Some (substring out (resultStart + int (length (js_START @ [LF]))) resultEnd)
         else None)"

definition try_block_js :: "(string \<Rightarrow> string + json) \<Rightarrow> string \<Rightarrow> string \<Rightarrow> string + json" where
  "try_block_js parse out err =
     (case js_payload out of
        Some jsonStr \<Rightarrow> parse jsonStr
      | None \<Rightarrow>
          if err \<noteq> [] \<and> \<not> includes_str js_START out then Inr (error_result err)
          else (case brace_match out of
                  Some jsonMatch \<Rightarrow> parse jsonMatch
                | None \<Rightarrow> Inr empty_result))"

text \<open>
  The \<open>catch\<close> block shared by both close handlers:
  \<open>e.message || 'Execution failed: ' + (stderr || stdout.substring(0, 200))\<close>.
\<close>

definition catch_block :: "string \<Rightarrow> string \<Rightarrow> string \<Rightarrow> json" where
  "catch_block msg out err =
     error_result
       (if msg \<noteq> [] then msg
        else ''Execution failed: '' @ (if err \<noteq> [] then err else substring out 0 200))"

definition close_result_js :: "(string \<Rightarrow> string + json) \<Rightarrow> string \<Rightarrow> string \<Rightarrow> json" where
  "close_result_js parse out err =
     (case try_block_js parse out err of
        Inr result \<Rightarrow> result
      | Inl msg \<Rightarrow> catch_block msg out err)"

text \<open>
  A handler returns the new state, or \<open>Inl\<close> with the message of an exception that
  escapes it.
\<close>

definition on_close_js :: "(string \<Rightarrow> string + json) \<Rightarrow> execution \<Rightarrow> 'p world \<Rightarrow> string + 'p world" where
  "on_close_js parse ex w =
     (let w1 = w\<lparr>executionProcesses := map_delete (execId ex) (executionProcesses w)\<rparr>;
          w2 = w1\<lparr>files := (files w1)(scriptPath ex := None)\<rparr>
      in case try_block_js parse (stdout ex) (stderr ex) of
           Inr result \<Rightarrow> Inr (w2\<lparr>resolved := resolved w2 @ [result]\<rparr>)
         | Inl msg \<Rightarrow>
             Inr (w2\<lparr>resolved := resolved w2 @ [catch_block msg (stdout ex) (stderr ex)]\<rparr>))"

text \<open>\<open>stdout[i] === '\n'\<close>: out of range the read gives \<open>undefined\<close>.\<close>

definition char_at_is :: "string \<Rightarrow> int \<Rightarrow> char \<Rightarrow> bool" where
  "char_at_is s i c = (0 \<le> i \<and> i < int (length s) \<and> s ! nat i = c)"

definition php_payload :: "string \<Rightarrow> string option" where
  "php_payload out =
     (let resultStart1 = indexOf out (php_START @ [LF]) 0;
          resultStart2 = indexOf out php_START 0;
          resultStart = (if resultStart1 \<noteq> - 1 then resultStart1 else resultStart2);
          resultEnd =
            (if resultStart \<noteq> - 1 then
               (let searchStart = resultStart + int (length php_START);
                    resultEnd1 = indexOf out (LF # php_END) searchStart;
                    resultEnd2 = indexOf out php_END searchStart
                in if resultEnd1 \<noteq> - 1 then resultEnd1 else resultEnd2)
             else - 1)
      in if resultStart \<noteq> - 1 \<and> resultEnd \<noteq> - 1 then
           (let jsonStart0 = resultStart + int (length php_START);
                jsonStart = (if char_at_is out jsonStart0 LF then jsonStart0 + 1 else jsonStart0);
                jsonStr = trim (substring out jsonStart resultEnd)
            in Some jsonStr)
         else None)"

definition try_block_php :: "(string \<Rightarrow> string + json) \<Rightarrow> string \<Rightarrow> string \<Rightarrow> string + json" where
  "try_block_php parse out err =
     (case php_payload out of
        Some jsonStr \<Rightarrow> parse jsonStr
      | None \<Rightarrow>
          if err \<noteq> [] \<and> \<not> includes_str php_START out then Inr (error_result err)
          else (case brace_match out of
                  Some jsonMatch \<Rightarrow>
                    (case parse jsonMatch of
                       Inr result \<Rightarrow> Inr result
                     | Inl parseErr \<Rightarrow>
                         Inr (error_result
                           (''Failed to parse execution result. Output: '' @ substring out 0 200)))
                | None \<Rightarrow>
                    if trim out \<noteq> [] then Inr (raw_stdout_result (trim out))
                    else if trim err \<noteq> [] then Inr (error_result (trim err))
                    else Inr (error_result ''Execution returned no output.'')))"

definition close_result_php :: "(string \<Rightarrow> string + json) \<Rightarrow> string \<Rightarrow> string \<Rightarrow> json" where
  "close_result_php parse out err =
     (case try_block_php parse out err of
        Inr result \<Rightarrow> result
      | Inl msg \<Rightarrow> catch_block msg out err)"

definition on_close_php :: "(string \<Rightarrow> string + json) \<Rightarrow> execution \<Rightarrow> 'p world \<Rightarrow> string + 'p world" where
  "on_close_php parse ex w =
     (let w1 = w\<lparr>executionProcesses := map_delete (execId ex) (executionProcesses w)\<rparr>;
          hasParseError = (stderr ex \<noteq> [] \<and> includes_str ''Parse error'' (stderr ex));
          w2 = (if \<not> hasParseError then w1\<lparr>files := (files w1)(scriptPath ex := None)\<rparr> else w1)
      in case try_block_php parse (stdout ex) (stderr ex) of
           Inr result \<Rightarrow> Inr (w2\<lparr>resolved := resolved w2 @ [result]\<rparr>)
         | Inl msg \<Rightarrow>
             Inr (w2\<lparr>resolved := resolved w2 @ [catch_block msg (stdout ex) (stderr ex)]\<rparr>))"

subsection \<open>The error handlers and the stop handler\<close>

text \<open>
  The message of the \<open>error\<close> handlers: \<open>error.message\<close>, replaced when the code is
  \<open>ENOENT\<close> by a text that ends with the interpreter that was tried.
\<close>

definition js_not_found :: string where
  "js_not_found = ''Node.js not found. Please install Node.js and ensure it is accessible.''"

definition php_not_found :: string where
  "php_not_found = ''PHP not found. Please install PHP and ensure it is accessible.''"

definition errorMessage :: "string \<Rightarrow> spawn_error \<Rightarrow> string \<Rightarrow> string" where
  "errorMessage not_found error exe =
     (if err_code error = Some ''ENOENT''
      then not_found @ [LF, LF] @ ''Tried: '' @ exe
      else err_message error)"

definition on_error_js :: "spawn_error \<Rightarrow> execution \<Rightarrow> 'p world \<Rightarrow> 'p world" where
  "on_error_js error ex w =
     (let w1 = w\<lparr>executionProcesses := map_delete (execId ex) (executionProcesses w)\<rparr>;
          w2 = w1\<lparr>files := (files w1)(scriptPath ex := None)\<rparr>
      in w2\<lparr>resolved := resolved w2 @
             [spawn_error_result (errorMessage js_not_found error (executable ex)) (err_code error)]\<rparr>)"

definition on_error_php :: "spawn_error \<Rightarrow> execution \<Rightarrow> 'p world \<Rightarrow> 'p world" where
  "on_error_php error ex w =
     (let w1 = w\<lparr>executionProcesses := map_delete (execId ex) (executionProcesses w)\<rparr>;
          w2 = w1\<lparr>files := (files w1)(scriptPath ex := None)\<rparr>
      in w2\<lparr>resolved := resolved w2 @
             [spawn_error_result (errorMessage php_not_found error (executable ex)) (err_code error)]\<rparr>)"




text \<open>
  \<open>ipcMain.handle('stop-execution', ...)\<close>: every registered process is sent a kill
  signal (a throwing \<open>kill\<close> is ignored) and the registry is cleared.
\<close>

definition stop_execution :: "'p world \<Rightarrow> 'p world" where
  "stop_execution w =
     w\<lparr>killed := killed w @ map snd (executionProcesses w), executionProcesses := []\<rparr>"

section \<open>The probe blocks of the generated harness and the way their results travel\<close>

text \<open>
  For every magic comment the builders splice a block into the script, after the user
  code and inside its \<open>try\<close>.  The script collects the entries the blocks push,
  serializes its result between the two sentinels on its standard output, and the close
  handler of the parent decodes what it finds there.  This section models that path
  from the blocks to the ExecutionResult the caller receives.  What the interpreter
  does with the user's text is a parameter: how the user code ends, what the
  evaluation of each spliced expression yields, what the script has echoed to its
  standard output before the payload, and the text that the serializer prints for a
  structured value.  User code that assigns to the variables of the harness itself is
  outside the model.
\<close>

subsection \<open>Values of the JavaScript run and the replacer of safeJsonStringify\<close>

text \<open>
  A value as \<open>JSON.stringify\<close> walks it.  An array or object carries its identity (two
  occurrences with the same number are the same object), since the replacer remembers
  every object it has met.  \<open>VNonFinite\<close> is \<open>NaN\<close> or an infinity.
\<close>

datatype jsv =
    VUndefined
  | VNull
  | VBool bool
  | VNumber string
  | VNonFinite
  | VString string
  | VFunction
  | VSymbol
  | VArray nat "jsv list"
  | VObject nat "(string \<times> jsv) list"

text \<open>
  \<open>JSON.stringify(obj, replacer)\<close> with the replacer of \<open>safeJsonStringify\<close>, as a walk
  that threads the set \<open>seen\<close>: an object met before becomes the text \<open>[Circular]\<close>
  (the set is never cleared, so this holds for any second occurrence, cyclic or not), a
  function becomes \<open>[Function]\<close>, \<open>undefined\<close> becomes null.  A symbol passes the replacer
  and is then left out by \<open>JSON.stringify\<close>: as a member it disappears (\<open>None\<close>), as an
  element it becomes null.
\<close>

fun replace_value :: "nat list \<Rightarrow> jsv \<Rightarrow> json option \<times> nat list"
  and replace_elements :: "nat list \<Rightarrow> jsv list \<Rightarrow> json list \<times> nat list"
  and replace_members :: "nat list \<Rightarrow> (string \<times> jsv) list \<Rightarrow> (string \<times> json) list \<times> nat list" where
  "replace_value seen VUndefined = (Some JNull, seen)"
| "replace_value seen VNull = (Some JNull, seen)"
| "replace_value seen (VBool b) = (Some (JBool b), seen)"
| "replace_value seen (VNumber n) = (Some (JNumber n), seen)"
| "replace_value seen VNonFinite = (Some JNull, seen)"
| "replace_value seen (VString s) = (Some (JString s), seen)"
| "replace_value seen VFunction = (Some (JString ''[Function]''), seen)"
| "replace_value seen VSymbol = (None, seen)"
| "replace_value seen (VArray i xs) =
     (if i \<in> set seen then (Some (JString ''[Circular]''), seen)
      else (case replace_elements (i # seen) xs of (ys, seen') \<Rightarrow> (Some (JArray ys), seen')))"
| "replace_value seen (VObject i ms) =
     (if i \<in> set seen then (Some (JString ''[Circular]''), seen)
      else (case replace_members (i # seen) ms of (ns, seen') \<Rightarrow> (Some (JObject ns), seen')))"
| "replace_elements seen [] = ([], seen)"
| "replace_elements seen (x # xs) =
     (case replace_value seen x of
        (y, seen1) \<Rightarrow>
          (case replace_elements seen1 xs of
             (ys, seen2) \<Rightarrow> ((case y of None \<Rightarrow> JNull | Some j \<Rightarrow> j) # ys, seen2)))"
| "replace_members seen [] = ([], seen)"
| "replace_members seen ((k, x) # ms) =
     (case replace_value seen x of
        (y, seen1) \<Rightarrow>
          (case replace_members seen1 ms of
             (ns, seen2) \<Rightarrow> ((case y of None \<Rightarrow> ns | Some j \<Rightarrow> (k, j) # ns), seen2)))"


subsection \<open>The blocks\<close>









subsection \<open>The payload and the standard output of the JavaScript script\<close>







subsection \<open>The PHP blocks, payload and standard output\<close>









section \<open>Properties\<close>

subsection \<open>Strings\<close>

lemmas str_eval = LF_def CR_def is_space_def is_line_terminator_def trim_def
  after_slashes_def capture_group_def

lemma split_nl_not_Nil: "split_nl s \<noteq> []"
  by (induction s) (auto split: list.splits)

lemma join_nl_Cons_char: "ls \<noteq> [] \<Longrightarrow> join_nl ((c # hd ls) # tl ls) = c # join_nl ls"
  by (cases ls rule: join_nl.cases) auto

lemma join_split_nl: "join_nl (split_nl s) = s"
proof (induction s)
  case Nil
  show ?case by simp
next
  case (Cons c cs)
  show ?case
  proof (cases "c = LF")
    case True
    obtain l ls where "split_nl cs = l # ls"
      using split_nl_not_Nil [of cs] by (cases "split_nl cs") auto
    with True Cons show ?thesis by simp
  next
    case False
    obtain l ls where sp: "split_nl cs = l # ls"
      using split_nl_not_Nil [of cs] by (cases "split_nl cs") auto
    have "join_nl ((c # l) # ls) = c # join_nl (l # ls)"
      using join_nl_Cons_char [of "l # ls" c] by simp
    with False sp Cons show ?thesis by simp
  qed
qed

lemma dropWhile_rev_hd:
  assumes "dropWhile P (rev u) \<noteq> []"
  shows "hd (rev (dropWhile P (rev u))) = hd u"
proof -
  obtain a b where ab: "rev u = a @ b" "dropWhile P (rev u) = b"
    by (metis takeWhile_dropWhile_id)
  then have "u = rev b @ rev a" by (metis rev_append rev_rev_ident)
  with ab assms show ?thesis by simp
qed

lemma trimmed_trim: "is_trimmed (trim s)"
proof (cases "trim s = []")
  case True
  then show ?thesis by (simp add: is_trimmed_def)
next
  case False
  let ?u = "dropWhile is_space s"
  let ?v = "dropWhile is_space (rev ?u)"
  from False have v: "?v \<noteq> []" by (simp add: trim_def)
  then have u: "?u \<noteq> []" by (cases "?u") auto
  have "hd (trim s) = hd ?u"
    using dropWhile_rev_hd [OF v] by (simp add: trim_def)
  moreover have "\<not> is_space (hd ?u)" using u by (rule hd_dropWhile)
  moreover have "last (trim s) = hd ?v" using v by (simp add: trim_def last_rev)
  moreover have "\<not> is_space (hd ?v)" using v by (rule hd_dropWhile)
  ultimately show ?thesis by (simp add: is_trimmed_def)
qed

lemma trim_of_trimmed: "is_trimmed s \<Longrightarrow> trim s = s"
proof (cases s)
  case Nil
  then show ?thesis by (simp add: trim_def)
next
  case (Cons c cs)
  assume "is_trimmed s"
  with Cons have h: "\<not> is_space c" and l: "\<not> is_space (last s)"
    by (auto simp: is_trimmed_def)
  from h Cons have 1: "dropWhile is_space s = s" by simp
  from Cons have "rev s \<noteq> []" by simp
  then obtain d ds where r: "rev s = d # ds" by (cases "rev s") auto
  then have "last s = d" by (metis Cons last_rev list.sel(1) list.simps(3) rev_rev_ident)
  with l r have "dropWhile is_space (rev s) = rev s" by simp
  with 1 show ?thesis by (simp add: trim_def)
qed

lemma trim_idem: "trim (trim s) = trim s"
  by (rule trim_of_trimmed) (rule trimmed_trim)

subsection \<open>The extractor\<close>

lemma forEach_line_eq:
  "forEach_line i ls (mcs, pls) = (mcs @ probes_of_lines i ls, pls @ ls)"
proof (induction ls arbitrary: i mcs pls)
  case Nil
  show ?case by (simp add: probes_of_lines_def List.map_filter_simps)
next
  case (Cons l ls)
  show ?case
    by (cases "magic_match l")
       (simp_all add: Cons.IH probes_of_lines_def List.map_filter_simps)
qed

lemma processMagicComments_eq:
  "processMagicComments code =
     \<lparr>pc_code = code, pc_magicComments = probes_of_lines 0 (split_nl code)\<rparr>"
  by (simp add: processMagicComments_def forEach_line_eq join_split_nl)

lemma probes_of_lines_member:
  "mc \<in> set (probes_of_lines k ls) \<longleftrightarrow>
     (\<exists>i < length ls. \<exists>g. magic_match (ls ! i) = Some g \<and>
        mc = \<lparr>mc_line = k + i + 1, mc_expression = trim g\<rparr>)"
proof (induction ls arbitrary: k)
  case Nil
  show ?case by (simp add: probes_of_lines_def List.map_filter_simps)
next
  case (Cons l ls)
  have step: "set (probes_of_lines k (l # ls)) =
      (case magic_match l of None \<Rightarrow> {} | Some g \<Rightarrow> {\<lparr>mc_line = k + 1, mc_expression = trim g\<rparr>})
      \<union> set (probes_of_lines (Suc k) ls)"
    by (cases "magic_match l") (simp_all add: probes_of_lines_def List.map_filter_simps)
  show ?case
  proof
    assume "mc \<in> set (probes_of_lines k (l # ls))"
    with step consider
      (here) g where "magic_match l = Some g" "mc = \<lparr>mc_line = k + 1, mc_expression = trim g\<rparr>"
      | (later) "mc \<in> set (probes_of_lines (Suc k) ls)"
      by (auto split: option.splits)
    then show "\<exists>i < length (l # ls). \<exists>g. magic_match ((l # ls) ! i) = Some g \<and>
        mc = \<lparr>mc_line = k + i + 1, mc_expression = trim g\<rparr>"
    proof cases
      case here
      then show ?thesis by (intro exI [of _ 0]) simp
    next
      case later
      then obtain i g where "i < length ls" "magic_match (ls ! i) = Some g"
        "mc = \<lparr>mc_line = Suc k + i + 1, mc_expression = trim g\<rparr>"
        using Cons.IH [of "Suc k"] by blast
      then show ?thesis by (intro exI [of _ "Suc i"]) simp
    qed
  next
    assume "\<exists>i < length (l # ls). \<exists>g. magic_match ((l # ls) ! i) = Some g \<and>
        mc = \<lparr>mc_line = k + i + 1, mc_expression = trim g\<rparr>"
    then obtain i g where i: "i < length (l # ls)" "magic_match ((l # ls) ! i) = Some g"
      "mc = \<lparr>mc_line = k + i + 1, mc_expression = trim g\<rparr>" by blast
    show "mc \<in> set (probes_of_lines k (l # ls))"
    proof (cases i)
      case 0
      with i step show ?thesis by simp
    next
      case (Suc j)
      with i have "j < length ls" "magic_match (ls ! j) = Some g"
        "mc = \<lparr>mc_line = Suc k + j + 1, mc_expression = trim g\<rparr>" by simp_all
      then have "mc \<in> set (probes_of_lines (Suc k) ls)"
        using Cons.IH [of "Suc k"] by blast
      with step show ?thesis by simp
    qed
  qed
qed


subsection \<open>The console shim\<close>

lemma console_call_filter:
  "console_call kind (filter (\<lambda>a. a \<noteq> JsUndefined) args) output = console_call kind args output"
  by (simp add: console_call_def)

text \<open>
  Claim C10.  A call of a captured console method whose arguments are all \<open>undefined\<close>
  (the call without arguments included) leaves the output buffer as it was, so
  \<open>console.log(undefined)\<close> adds no entry; and an \<open>undefined\<close> argument anywhere among
  the arguments is dropped: the call records what the call without it records, and a
  recorded entry is formatted from the arguments that are not \<open>undefined\<close>.
\<close>

theorem console_undefined_dropped:
  "((\<forall>a \<in> set args. a = JsUndefined) \<longrightarrow> console_call kind args output = output) \<and>
   console_call kind (xs @ JsUndefined # ys) output = console_call kind (xs @ ys) output \<and>
   ((\<exists>a \<in> set args. a \<noteq> JsUndefined) \<longrightarrow>
      console_call kind args output =
        output @ [\<lparr>le_type = kind_name kind,
                   le_args = join_sp (map safeStringify (filter (\<lambda>a. a \<noteq> JsUndefined) args))\<rparr>])"
proof (intro conjI impI)
  assume "\<forall>a \<in> set args. a = JsUndefined"
  then have "filter (\<lambda>a. a \<noteq> JsUndefined) args = []" by (induction args) auto
  then show "console_call kind args output = output" by (simp add: console_call_def)
next
  show "console_call kind (xs @ JsUndefined # ys) output = console_call kind (xs @ ys) output"
    by (simp add: console_call_def)
next
  assume "\<exists>a \<in> set args. a \<noteq> JsUndefined"
  then have "filter (\<lambda>a. a \<noteq> JsUndefined) args \<noteq> []" by (induction args) auto
  then show "console_call kind args output =
        output @ [\<lparr>le_type = kind_name kind,
                   le_args = join_sp (map safeStringify (filter (\<lambda>a. a \<noteq> JsUndefined) args))\<rparr>]"
    by (simp add: console_call_def)
qed

theorem console_undefined_dropped_witness:
  "set [JsUndefined, JsUndefined] = {JsUndefined} \<and>
   console_call Log [JsUndefined, JsUndefined] [] = [] \<and>
   (\<exists>a \<in> set [JsUndefined, JsPrimitive ''1'', JsNull]. a \<noteq> JsUndefined) \<and>
   console_call Warn [JsUndefined, JsPrimitive ''1'', JsNull] [] =
     [\<lparr>le_type = ''warn'', le_args = ''1 null''\<rparr>]"
  using console_undefined_dropped [of "[JsUndefined, JsUndefined]" Log "[]"]
    console_undefined_dropped [of "[JsUndefined, JsPrimitive ''1'', JsNull]" Warn "[]"]
  by simp

subsection \<open>The extractor returns its input\<close>

text \<open>
  Claim C9.  For every snippet the extractor returns the snippet text itself; its list
  of magic comments is the comprehension \<open>probes_of_lines\<close> over the lines of the
  snippet (a function of the text alone); every record carries the 1-based number of a
  line of the snippet that matches the annotation pattern, and its expression is the
  trimmed capture group of that line, on which trimming again changes nothing.  The
  function is total: there is no input on which it fails.
\<close>

theorem processMagicComments_code_unchanged:
  "pc_code (processMagicComments code) = code \<and>
   pc_magicComments (processMagicComments code) = probes_of_lines 0 (split_nl code) \<and>
   (\<forall>mc \<in> set (pc_magicComments (processMagicComments code)).
      1 \<le> mc_line mc \<and> mc_line mc \<le> length (split_nl code) \<and>
      trim (mc_expression mc) = mc_expression mc \<and>
      (\<exists>g. magic_match (split_nl code ! (mc_line mc - 1)) = Some g \<and> mc_expression mc = trim g))"
proof (intro conjI ballI)
  show "pc_code (processMagicComments code) = code"
    by (simp add: processMagicComments_eq)
  show "pc_magicComments (processMagicComments code) = probes_of_lines 0 (split_nl code)"
    by (simp add: processMagicComments_eq)
next
  fix mc
  assume "mc \<in> set (pc_magicComments (processMagicComments code))"
  then have "mc \<in> set (probes_of_lines 0 (split_nl code))"
    by (simp add: processMagicComments_eq)
  then obtain i g where i: "i < length (split_nl code)"
    and g: "magic_match (split_nl code ! i) = Some g"
    and mc: "mc = \<lparr>mc_line = 0 + i + 1, mc_expression = trim g\<rparr>"
    using probes_of_lines_member [of mc 0 "split_nl code"] by blast
  from mc show "1 \<le> mc_line mc" by simp
  from mc i show "mc_line mc \<le> length (split_nl code)" by simp
  from mc show "trim (mc_expression mc) = mc_expression mc" by (simp add: trim_idem)
  from mc g show "\<exists>g. magic_match (split_nl code ! (mc_line mc - 1)) = Some g \<and> mc_expression mc = trim g"
    by simp
qed

theorem processMagicComments_code_unchanged_witness:
  "pc_code (processMagicComments (''let x = 1; // $ x  '' @ [LF] @ ''x + 1'')) =
     ''let x = 1; // $ x  '' @ [LF] @ ''x + 1'' \<and>
   pc_magicComments (processMagicComments (''let x = 1; // $ x  '' @ [LF] @ ''x + 1'')) =
     [\<lparr>mc_line = 1, mc_expression = ''x''\<rparr>] \<and>
   \<lparr>mc_line = 1, mc_expression = ''x''\<rparr>
     \<in> set (pc_magicComments (processMagicComments (''let x = 1; // $ x  '' @ [LF] @ ''x + 1''))) \<and>
   length (split_nl (''let x = 1; // $ x  '' @ [LF] @ ''x + 1'')) = 2 \<and>
   trim ''x'' = ''x''"
  using processMagicComments_code_unchanged [of "''let x = 1; // $ x  '' @ [LF] @ ''x + 1''"]
  by (simp add: probes_of_lines_def List.map_filter_simps enumerate_eq_zip str_eval)

subsection \<open>The close handlers always resolve once\<close>


lemma well_formed_error_result: "well_formed_result (error_result m)"
  by (simp add: well_formed_result_def error_result_def field_def)

lemma well_formed_empty_result: "well_formed_result empty_result"
  by (simp add: well_formed_result_def empty_result_def field_def)

lemma well_formed_raw_stdout_result: "well_formed_result (raw_stdout_result t)"
  by (simp add: well_formed_result_def raw_stdout_result_def field_def)

lemma well_formed_catch_block: "well_formed_result (catch_block m out err)"
  by (simp add: catch_block_def well_formed_error_result)

lemma try_block_js_cases:
  "try_block_js parse out err = Inr r \<Longrightarrow> well_formed_result r \<or> (\<exists>s. parse s = Inr r)"
  by (auto simp: try_block_js_def well_formed_error_result well_formed_empty_result
      split: option.splits if_splits)

lemma try_block_php_cases:
  "try_block_php parse out err = Inr r \<Longrightarrow> well_formed_result r \<or> (\<exists>s. parse s = Inr r)"
  by (auto simp: try_block_php_def well_formed_error_result well_formed_raw_stdout_result
      split: option.splits if_splits sum.splits)

lemma close_result_js_cases:
  "well_formed_result (close_result_js parse out err) \<or>
   (\<exists>s. parse s = Inr (close_result_js parse out err))"
  using try_block_js_cases [of parse out err]
  by (cases "try_block_js parse out err") (auto simp: close_result_js_def well_formed_catch_block)

lemma close_result_php_cases:
  "well_formed_result (close_result_php parse out err) \<or>
   (\<exists>s. parse s = Inr (close_result_php parse out err))"
  using try_block_php_cases [of parse out err]
  by (cases "try_block_php parse out err") (auto simp: close_result_php_def well_formed_catch_block)

lemma on_close_js_eq:
  "on_close_js parse ex w =
     Inr (w\<lparr>executionProcesses := map_delete (execId ex) (executionProcesses w),
            files := (files w)(scriptPath ex := None),
            resolved := resolved w @ [close_result_js parse (stdout ex) (stderr ex)]\<rparr>)"
  by (cases "try_block_js parse (stdout ex) (stderr ex)")
     (simp_all add: on_close_js_def close_result_js_def Let_def)

lemma on_close_php_eq:
  "on_close_php parse ex w =
     Inr (w\<lparr>executionProcesses := map_delete (execId ex) (executionProcesses w),
            files := (if includes_str ''Parse error'' (stderr ex) then files w
                      else (files w)(scriptPath ex := None)),
            resolved := resolved w @ [close_result_php parse (stdout ex) (stderr ex)]\<rparr>)"
  by (cases "try_block_php parse (stdout ex) (stderr ex)"; cases "stderr ex")
     (simp_all add: on_close_php_def close_result_php_def Let_def)

text \<open>
  Claim C1, as the code has it.  For every \<open>JSON.parse\<close>, every accumulated stdout and
  stderr and every state, each close handler returns without an exception escaping it
  and calls \<open>resolve\<close> exactly once.  The value resolved is a well-formed
  ExecutionResult whenever the handler builds it itself (the error-only rung, the
  raw-stdout rung, the empty result, the \<open>catch\<close> block); when a payload was decoded,
  the value is whatever \<open>JSON.parse\<close> returned for it, with no check of its shape.
\<close>

theorem close_handlers_total:
  "(\<exists>w' r. on_close_js parse ex w = Inr w' \<and> resolved w' = resolved w @ [r] \<and>
      r = close_result_js parse (stdout ex) (stderr ex) \<and>
      (well_formed_result r \<or> (\<exists>s. parse s = Inr r))) \<and>
   (\<exists>w' r. on_close_php parse ex w = Inr w' \<and> resolved w' = resolved w @ [r] \<and>
      r = close_result_php parse (stdout ex) (stderr ex) \<and>
      (well_formed_result r \<or> (\<exists>s. parse s = Inr r)))"
  using close_result_js_cases [of parse "stdout ex" "stderr ex"]
    close_result_php_cases [of parse "stdout ex" "stderr ex"]
  by (simp add: on_close_js_eq on_close_php_eq)

text \<open>
  The claim as stated fails: a stdout that is the text \<open>{}\<close>, or the array \<open>[]\<close> between
  the two sentinels, is decoded and resolved as it is, and neither value has an
  \<open>output\<close> list, an \<open>error\<close> or a \<open>value\<close> field.
\<close>

theorem payload_shape_counterexample:
  \<open>close_result_js JSON_parse ''{}'' [] = JObject [] \<and>
   close_result_js JSON_parse (js_START @ [LF] @ ''[]'' @ [LF] @ js_END @ [LF]) [] = JArray [] \<and>
   \<not> well_formed_result (JArray []) \<and>
   close_result_php JSON_parse ''{}'' [] = JObject [] \<and>
   \<not> well_formed_result (JObject [])\<close>
  by code_simp


subsection \<open>The raw-stdout rung\<close>

lemma raw_stdout_not_error: "raw_stdout_result t \<noteq> error_result m"
  by (simp add: raw_stdout_result_def error_result_def)

lemma catch_block_is_error: "\<exists>m. catch_block msg out err = error_result m"
  unfolding catch_block_def by blast

lemma close_result_php_unparseable:
  assumes "trim out \<noteq> []"
    and "\<forall>s. php_payload out = Some s \<longrightarrow> isl (parse s)"
    and "\<forall>s. brace_match out = Some s \<longrightarrow> isl (parse s)"
  shows "if php_payload out = None \<and> brace_match out = None \<and>
            (err = [] \<or> includes_str php_START out)
         then close_result_php parse out err = raw_stdout_result (trim out)
         else (\<exists>msg. close_result_php parse out err = error_result msg)"
proof (cases "php_payload out")
  case (Some s)
  with assms(2) obtain m where "parse s = Inl m" by (cases "parse s") auto
  with Some show ?thesis
    by (simp add: close_result_php_def try_block_php_def catch_block_is_error)
next
  case None
  show ?thesis
  proof (cases "err \<noteq> [] \<and> \<not> includes_str php_START out")
    case True
    with None show ?thesis by (auto simp: close_result_php_def try_block_php_def)
  next
    case False
    show ?thesis
    proof (cases "brace_match out")
      case (Some b)
      with assms(3) obtain m where "parse b = Inl m" by (cases "parse b") auto
      with Some None False show ?thesis
        by (auto simp: close_result_php_def try_block_php_def)
    next
      case n: None
      with None False assms(1) show ?thesis
        by (auto simp: close_result_php_def try_block_php_def)
    qed
  qed
qed

text \<open>
  Claim C4, as the code has it.  In the PHP close handler, let stdout have content
  other than white space, and let neither a sentinel-delimited payload nor a
  brace-delimited substring of it be parseable.  When stdout holds no sentinel pair
  and no brace-delimited substring at all, and the error-only rung does not apply
  (stderr is empty, or stdout mentions the start sentinel), the handler resolves the
  result whose output list is the single \<open>log\<close> entry holding the trimmed stdout text,
  with a null error.  In every other case it resolves an error result with an empty
  output list: the stderr text, the message of the failed parse of the payload, or
  \<open>Failed to parse execution result\<close> for a brace-delimited substring that does not
  parse.
\<close>

theorem php_raw_stdout_rung:
  assumes "trim (stdout ex) \<noteq> []"
    and "\<forall>s. php_payload (stdout ex) = Some s \<longrightarrow> isl (parse s)"
    and "\<forall>s. brace_match (stdout ex) = Some s \<longrightarrow> isl (parse s)"
  shows "\<exists>w' r. on_close_php parse ex w = Inr w' \<and> resolved w' = resolved w @ [r] \<and>
           (if php_payload (stdout ex) = None \<and> brace_match (stdout ex) = None \<and>
               (stderr ex = [] \<or> includes_str php_START (stdout ex))
            then r = JObject [(''output'', JArray [JObject [(''type'', JString ''log''),
                                                           (''args'', JString (trim (stdout ex)))]]),
                              (''error'', JNull),
                              (''value'', JUndefined),
                              (''magicComments'', JArray [])]
            else (\<exists>msg. r = JObject [(''output'', JArray []),
                                      (''error'', JObject [(''message'', JString msg)]),
                                      (''value'', JUndefined)]))"
  using close_result_php_unparseable [OF assms, of "stderr ex"]
  by (simp add: on_close_php_eq raw_stdout_result_def error_result_def split: if_splits)

theorem php_raw_stdout_rung_witness:
  "trim (''hello'' @ [LF]) = ''hello'' \<and>
   php_payload (''hello'' @ [LF]) = None \<and> brace_match (''hello'' @ [LF]) = None \<and>
   (\<exists>w'. on_close_php JSON_parse
       \<lparr>execId = ''17'', scriptPath = ''/tmp/fasttinker-php-17.php'', executable = ''php'',
        stdout = ''hello'' @ [LF], stderr = []\<rparr>
       \<lparr>executionProcesses = [(''17'', 1::nat)],
        files = [''/tmp/fasttinker-php-17.php'' \<mapsto> ''x''], killed = [], resolved = []\<rparr> = Inr w' \<and>
      resolved w' = [raw_stdout_result ''hello'']) \<and>
   brace_match ''{x}'' = Some ''{x}'' \<and> isl (JSON_parse ''{x}'') \<and>
   (\<exists>w'. on_close_php JSON_parse
       \<lparr>execId = ''17'', scriptPath = ''/tmp/fasttinker-php-17.php'', executable = ''php'',
        stdout = ''{x}'', stderr = []\<rparr>
       \<lparr>executionProcesses = [(''17'', 1::nat)],
        files = [''/tmp/fasttinker-php-17.php'' \<mapsto> ''x''], killed = [], resolved = []\<rparr> = Inr w' \<and>
      resolved w' = [error_result ''Failed to parse execution result. Output: {x}''])"
proof -
  have p: "isl (JSON_parse ''{x}'')" by code_simp
  have e: "php_payload (''hello'' @ [LF]) = None" "brace_match (''hello'' @ [LF]) = None"
    "trim (''hello'' @ [LF]) = ''hello''" "php_payload ''{x}'' = None"
    "brace_match ''{x}'' = Some ''{x}''" "trim ''{x}'' = ''{x}''"
    by (simp_all add: php_payload_def indexOf_def php_START_def LF_def brace_match_def trim_def
        is_space_def)
  have r: "close_result_php JSON_parse ''{x}'' [] =
      error_result ''Failed to parse execution result. Output: {x}''"
    using p e by (cases "JSON_parse ''{x}''")
      (simp_all add: close_result_php_def try_block_php_def substring_def)
  show ?thesis
    using php_raw_stdout_rung [of
       "\<lparr>execId = ''17'', scriptPath = ''/tmp/fasttinker-php-17.php'', executable = ''php'',
        stdout = ''hello'' @ [LF], stderr = []\<rparr>" JSON_parse
       "\<lparr>executionProcesses = [(''17'', 1::nat)],
        files = [''/tmp/fasttinker-php-17.php'' \<mapsto> ''x''], killed = [], resolved = []\<rparr>"]
      php_raw_stdout_rung [of
       "\<lparr>execId = ''17'', scriptPath = ''/tmp/fasttinker-php-17.php'', executable = ''php'',
        stdout = ''{x}'', stderr = []\<rparr>" JSON_parse
       "\<lparr>executionProcesses = [(''17'', 1::nat)],
        files = [''/tmp/fasttinker-php-17.php'' \<mapsto> ''x''], killed = [], resolved = []\<rparr>"]
      p e r
    by (simp add: on_close_php_eq raw_stdout_result_def)
qed

text \<open>
  The claim as stated fails on each of these outputs, none of which holds anything
  that can be parsed.  On \<open>hello\<close> the JavaScript close handler resolves the empty
  result and drops the text, and the PHP close handler, given a non-empty stderr,
  resolves the stderr text as an error.  On \<open>{x}\<close>, which has a brace-delimited
  substring that does not parse, and on a sentinel pair around \<open>oops\<close>, the PHP
  handler resolves an error and no log entry.  On \<open>hello\<close> followed by a newline the
  entry holds \<open>hello\<close>, the trimmed text, not the raw one.
\<close>

theorem raw_stdout_counterexample:
  "trim ''hello'' = ''hello'' \<and> js_payload ''hello'' = None \<and> php_payload ''hello'' = None \<and>
   brace_match ''hello'' = None \<and>
   close_result_js JSON_parse ''hello'' [] = empty_result \<and>
   empty_result \<noteq> raw_stdout_result ''hello'' \<and>
   close_result_php JSON_parse ''hello'' ''Warning'' = error_result ''Warning'' \<and>
   error_result ''Warning'' \<noteq> raw_stdout_result ''hello'' \<and>
   trim ''{x}'' = ''{x}'' \<and> php_payload ''{x}'' = None \<and> isl (JSON_parse ''{x}'') \<and>
   close_result_php JSON_parse ''{x}'' [] =
     error_result ''Failed to parse execution result. Output: {x}'' \<and>
   error_result ''Failed to parse execution result. Output: {x}'' \<noteq> raw_stdout_result ''{x}'' \<and>
   php_payload (php_START @ [LF] @ ''oops'' @ [LF] @ php_END @ [LF]) = Some ''oops'' \<and>
   isl (JSON_parse ''oops'') \<and>
   brace_match (php_START @ [LF] @ ''oops'' @ [LF] @ php_END @ [LF]) = None \<and>
   close_result_php JSON_parse (php_START @ [LF] @ ''oops'' @ [LF] @ php_END @ [LF]) [] \<noteq>
     raw_stdout_result (trim (php_START @ [LF] @ ''oops'' @ [LF] @ php_END @ [LF])) \<and>
   close_result_php JSON_parse (''hello'' @ [LF]) [] = raw_stdout_result ''hello'' \<and>
   raw_stdout_result ''hello'' \<noteq> raw_stdout_result (''hello'' @ [LF])"
proof -
  have 1: "trim ''hello'' = ''hello'' \<and> js_payload ''hello'' = None \<and> php_payload ''hello'' = None \<and>
   brace_match ''hello'' = None \<and>
   close_result_js JSON_parse ''hello'' [] = empty_result \<and>
   empty_result \<noteq> raw_stdout_result ''hello'' \<and>
   close_result_php JSON_parse ''hello'' ''Warning'' = error_result ''Warning'' \<and>
   error_result ''Warning'' \<noteq> raw_stdout_result ''hello''"
    by (simp add: php_payload_def js_payload_def indexOf_def php_START_def js_START_def LF_def
        brace_match_def trim_def is_space_def close_result_js_def close_result_php_def
        try_block_js_def try_block_php_def empty_result_def raw_stdout_result_def error_result_def)
  have 2: "trim ''{x}'' = ''{x}'' \<and> php_payload ''{x}'' = None \<and> isl (JSON_parse ''{x}'') \<and>
   close_result_php JSON_parse ''{x}'' [] =
     error_result ''Failed to parse execution result. Output: {x}'' \<and>
   error_result ''Failed to parse execution result. Output: {x}'' \<noteq> raw_stdout_result ''{x}''"
    by code_simp
  have 3: "php_payload (php_START @ [LF] @ ''oops'' @ [LF] @ php_END @ [LF]) = Some ''oops'' \<and>
   isl (JSON_parse ''oops'') \<and>
   brace_match (php_START @ [LF] @ ''oops'' @ [LF] @ php_END @ [LF]) = None \<and>
   close_result_php JSON_parse (php_START @ [LF] @ ''oops'' @ [LF] @ php_END @ [LF]) [] \<noteq>
     raw_stdout_result (trim (php_START @ [LF] @ ''oops'' @ [LF] @ php_END @ [LF]))"
    by code_simp
  have 4: "close_result_php JSON_parse (''hello'' @ [LF]) [] = raw_stdout_result ''hello'' \<and>
   raw_stdout_result ''hello'' \<noteq> raw_stdout_result (''hello'' @ [LF])"
    by code_simp
  from 1 2 3 4 show ?thesis by (simp only: simp_thms)
qed

subsection \<open>Deletion of the temporary script\<close>

text \<open>
  Claim C5, as the code has it.  The JavaScript close handler deletes the temporary
  script whatever stderr holds.  The PHP close handler deletes it exactly when stderr
  does not contain the marker \<open>Parse error\<close>, and leaves the files as they were when it
  does.
\<close>

theorem temp_file_deletion:
  "(\<exists>w'. on_close_js parse ex w = Inr w' \<and> files w' = (files w)(scriptPath ex := None)) \<and>
   (\<exists>w'. on_close_php parse ex w = Inr w' \<and>
      files w' = (if includes_str ''Parse error'' (stderr ex) then files w
                  else (files w)(scriptPath ex := None)))"
  by (simp add: on_close_js_eq on_close_php_eq)

text \<open>
  The claim as stated fails in the JavaScript handler: with the marker in stderr (a
  snippet that logs the words through \<open>console.error\<close> puts it there) the script is
  deleted all the same.
\<close>

theorem js_parse_marker_counterexample:
  "\<exists>w'. on_close_js JSON_parse
       \<lparr>execId = ''17'', scriptPath = ''/tmp/fasttinker-js-17.js'', executable = ''node'',
        stdout = [], stderr = ''Parse error in input''\<rparr>
       \<lparr>executionProcesses = [(''17'', 1::nat)],
        files = [''/tmp/fasttinker-js-17.js'' \<mapsto> ''x''], killed = [], resolved = []\<rparr> = Inr w' \<and>
     includes_str ''Parse error'' ''Parse error in input'' \<and>
     files w' ''/tmp/fasttinker-js-17.js'' = None"
  by (simp add: on_close_js_eq)


subsection \<open>The error handlers\<close>

lemma starts_with_refl: "starts_with p p"
  by (induction p) auto

lemma includes_str_self: "includes_str p p"
  by (cases p) (auto simp: starts_with_refl)

lemma includes_str_append: "includes_str p (a @ p)"
  by (induction a) (auto simp: includes_str_self)

lemma errorMessage_names_path:
  "err_code error = Some ''ENOENT'' \<Longrightarrow> includes_str exe (errorMessage nf error exe)"
proof -
  assume "err_code error = Some ''ENOENT''"
  then have "errorMessage nf error exe = (nf @ [LF, LF] @ ''Tried: '') @ exe"
    by (simp add: errorMessage_def)
  then show ?thesis by (simp only: includes_str_append)
qed

lemma output_of_spawn_error_result:
  "spawn_error_result msg code =
     JObject [(''output'', JArray []),
              (''error'', JObject [(''message'', JString msg),
                                   (''code'', (case code of None \<Rightarrow> JUndefined | Some c \<Rightarrow> JString c))]),
              (''value'', JUndefined)]"
  by (simp add: spawn_error_result_def)

text \<open>
  What the \<open>error\<close> listeners do, for any error object: they resolve the synthetic
  result and delete the script; the message names the interpreter when the code is
  \<open>ENOENT\<close> and is the message of the error otherwise.
\<close>

lemma error_listener_resolves_and_cleans:
  "resolved (on_error_js error ex w) =
     resolved w @ [spawn_error_result (errorMessage js_not_found error (executable ex)) (err_code error)] \<and>
   resolved (on_error_php error ex w) =
     resolved w @ [spawn_error_result (errorMessage php_not_found error (executable ex)) (err_code error)] \<and>
   files (on_error_js error ex w) (scriptPath ex) = None \<and>
   files (on_error_php error ex w) (scriptPath ex) = None \<and>
   (err_code error = Some ''ENOENT'' \<longrightarrow>
      includes_str (executable ex) (errorMessage js_not_found error (executable ex)) \<and>
      includes_str (executable ex) (errorMessage php_not_found error (executable ex))) \<and>
   (err_code error \<noteq> Some ''ENOENT'' \<longrightarrow>
      errorMessage js_not_found error (executable ex) = err_message error \<and>
      errorMessage php_not_found error (executable ex) = err_message error)"
proof (intro conjI impI)
  show "resolved (on_error_js error ex w) =
     resolved w @ [spawn_error_result (errorMessage js_not_found error (executable ex)) (err_code error)]"
    by (simp add: on_error_js_def Let_def)
  show "resolved (on_error_php error ex w) =
     resolved w @ [spawn_error_result (errorMessage php_not_found error (executable ex)) (err_code error)]"
    by (simp add: on_error_php_def Let_def)
  show "files (on_error_js error ex w) (scriptPath ex) = None"
    by (simp add: on_error_js_def Let_def)
  show "files (on_error_php error ex w) (scriptPath ex) = None"
    by (simp add: on_error_php_def Let_def)
next
  assume "err_code error = Some ''ENOENT''"
  then show "includes_str (executable ex) (errorMessage js_not_found error (executable ex))"
    and "includes_str (executable ex) (errorMessage php_not_found error (executable ex))"
    by (rule errorMessage_names_path)+
next
  assume "err_code error \<noteq> Some ''ENOENT''"
  then show "errorMessage js_not_found error (executable ex) = err_message error"
    and "errorMessage php_not_found error (executable ex) = err_message error"
    by (simp_all add: errorMessage_def)
qed

text \<open>
  With the error object that the platform emits for a failed spawn, the message
  resolved by the \<open>error\<close> listeners names the interpreter for every code.
\<close>

lemma includes_str_middle: "includes_str p (a @ p @ b)"
proof (induction a)
  case Nil
  have "starts_with p (p @ b)" by (induction p) auto
  then show ?case by (cases "p @ b") auto
next
  case (Cons c a)
  then show ?case by simp
qed

lemma error_listener_names_path:
  "includes_str exe (errorMessage nf (spawn_error_event exe code) exe)"
proof (cases "code = ''ENOENT''")
  case True
  then show ?thesis by (simp add: errorMessage_names_path spawn_error_event_def)
next
  case False
  then have "errorMessage nf (spawn_error_event exe code) exe = ''spawn '' @ exe @ ('' '' @ code)"
    by (simp add: errorMessage_def spawn_error_event_def)
  then show ?thesis by (simp only: includes_str_middle)
qed



subsection \<open>Cancellation and execution identifiers\<close>

text \<open>
  Claim C2 at a concrete run.  A child has written a complete payload; the stop
  handler signals it and clears the registry; the close event of the child arrives
  afterwards.  The close handler consults neither the registry nor any record of the
  signal: it decodes the payload and passes it to \<open>resolve\<close>, so the caller receives
  the payload and no cancellation outcome.
\<close>

theorem cancelled_execution_still_resolves:
  \<open>\<exists>w'. on_close_js JSON_parse
       \<lparr>execId = ''1700000000000'', scriptPath = ''/tmp/fasttinker-js-1700000000000.js'',
        executable = ''node'',
        stdout = js_START @ [LF] @ ''{"output":[],"error":null,"value":null,"magicComments":[]}''
                   @ [LF] @ js_END @ [LF],
        stderr = []\<rparr>
       (stop_execution
          \<lparr>executionProcesses = [(''1700000000000'', 1::nat)],
           files = [''/tmp/fasttinker-js-1700000000000.js'' \<mapsto> ''x''],
           killed = [], resolved = []\<rparr>) = Inr w' \<and>
     killed w' = [1] \<and>
     executionProcesses w' = [] \<and>
     resolved w' =
       [JObject [(''output'', JArray []), (''error'', JNull), (''value'', JNull),
                 (''magicComments'', JArray [])]]\<close>
proof -
  have \<open>close_result_js JSON_parse
      (js_START @ [LF] @ ''{"output":[],"error":null,"value":null,"magicComments":[]}''
         @ [LF] @ js_END @ [LF]) [] =
      JObject [(''output'', JArray []), (''error'', JNull), (''value'', JNull),
               (''magicComments'', JArray [])]\<close>
    by code_simp
  then show ?thesis
    by (simp add: on_close_js_eq stop_execution_def map_delete_def)
qed

text \<open>
  Claim C7 at a concrete run.  Two executions that read the same value of
  \<open>Date.now()\<close> get the same execution identifier and the same script path: the
  second registration replaces the handle of the first child in the registry, and the
  second script overwrites the first.  The close event of the first child then removes
  the registry entry and the script of the second.
\<close>

theorem same_millisecond_collision:
  "(let (e1, w1) = begin_js 1700000000000 ''/tmp'' ''first script'' ''node'' (1::nat)
                     \<lparr>executionProcesses = [], files = Map.empty, killed = [], resolved = []\<rparr>;
        (e2, w2) = begin_js 1700000000000 ''/tmp'' ''second script'' ''node'' (2::nat) w1
    in execId e1 = ''1700000000000'' \<and> execId e2 = ''1700000000000'' \<and>
       scriptPath e1 = ''/tmp/fasttinker-js-1700000000000.js'' \<and>
       scriptPath e2 = ''/tmp/fasttinker-js-1700000000000.js'' \<and>
       executionProcesses w2 = [(''1700000000000'', 2)] \<and>
       files w2 ''/tmp/fasttinker-js-1700000000000.js'' = Some ''second script'' \<and>
       (\<exists>w3. on_close_js JSON_parse e1 w2 = Inr w3 \<and>
             executionProcesses w3 = [] \<and>
             files w3 ''/tmp/fasttinker-js-1700000000000.js'' = None))"
  by (simp add: begin_js_def show_int_def show_nat.simps Let_def on_close_js_eq map_delete_def)


subsection \<open>The auto-log transform and lines that already are output calls\<close>

lemma starts_with_iff: "starts_with p s \<longleftrightarrow> (\<exists>r. s = p @ r)"
  by (induction p s rule: starts_with.induct) auto

lemma set_trim: "set (trim s) \<subseteq> set s"
proof -
  have "set (trim s) \<subseteq> set (dropWhile is_space s)"
    unfolding trim_def using set_dropWhileD by fastforce
  also have "\<dots> \<subseteq> set s" using set_dropWhileD by fastforce
  finally show ?thesis .
qed

lemma set_withoutSemicolon: "set (withoutSemicolon_of t) \<subseteq> set t"
  by (auto simp: withoutSemicolon_of_def dest: in_set_butlastD)

lemma set_indent: "set (indent_of l) \<subseteq> set l"
  by (auto simp: indent_of_def dest: set_takeWhileD)

lemma indent_spaces: "\<forall>c \<in> set (indent_of l). is_space c"
  by (auto simp: indent_of_def dest: set_takeWhileD)

lemma trim_keeps_prefix:
  assumes "p \<noteq> []" and "\<not> is_space (hd p)" and "\<not> is_space (last p)"
    and "\<forall>c \<in> set i. is_space c"
  shows "starts_with p (trim (i @ p @ r))"
proof -
  have 1: "dropWhile is_space (i @ p @ r) = p @ r"
    using assms by (cases p) (simp_all add: dropWhile_append)
  have "last p \<in> set (rev p)" using assms(1) by simp
  then have np: "\<not> (\<forall>x \<in> set (rev p). is_space x)" using assms(3) by blast
  have hp: "dropWhile is_space (rev p) = rev p"
    using assms(1,3) by (cases "rev p") (auto simp: last_rev[symmetric] simp del: last_rev)
  have "\<exists>x. dropWhile is_space (rev r @ rev p) = x @ rev p"
    by (cases "\<forall>c \<in> set (rev r). is_space c") (auto simp: dropWhile_append hp)
  then obtain x where "dropWhile is_space (rev (p @ r)) = x @ rev p" by auto
  with 1 have "trim (i @ p @ r) = p @ rev x" by (simp add: trim_def)
  then show ?thesis by (auto simp: starts_with_iff)
qed

lemma withoutSemicolon_keeps_prefix:
  assumes "starts_with p t" and "p \<noteq> []" and "last p \<noteq> CHR '';''"
  shows "\<exists>r. withoutSemicolon_of t = p @ r"
proof -
  from assms(1) obtain r where t: "t = p @ r" by (auto simp: starts_with_iff)
  show ?thesis
  proof (cases "r = []")
    case True
    with t assms show ?thesis by (simp add: withoutSemicolon_of_def)
  next
    case False
    with t have "butlast t = p @ butlast r" by (simp add: butlast_append)
    with t show ?thesis by (auto simp: withoutSemicolon_of_def)
  qed
qed

lemma call_prefix_survives:
  assumes "starts_with p t" and "p \<noteq> []" and "last p \<noteq> CHR '';''"
    and "\<not> is_space (hd p)" and "\<not> is_space (last p)"
  shows "starts_with p (trim (withoutSemicolon_of t))"
proof -
  obtain r where "withoutSemicolon_of t = p @ r"
    using withoutSemicolon_keeps_prefix [OF assms(1-3)] by blast
  then show ?thesis
    using trim_keeps_prefix [OF assms(2) assms(4) assms(5), of "[]" r] by simp
qed

lemma js_wrap_output_call:
  assumes "js_output_call line"
  shows "js_wrap line (trim line) b p = line"
proof -
  have 1: "starts_with ''console.log'' t \<Longrightarrow>
      starts_with ''console.log'' (trim (withoutSemicolon_of t))" for t
    by (erule call_prefix_survives) (simp_all add: is_space_def)
  have 2: "starts_with ''console.error'' t \<Longrightarrow>
      starts_with ''console.error'' (trim (withoutSemicolon_of t))" for t
    by (erule call_prefix_survives) (simp_all add: is_space_def)
  have 3: "starts_with ''console.warn'' t \<Longrightarrow>
      starts_with ''console.warn'' (trim (withoutSemicolon_of t))" for t
    by (erule call_prefix_survives) (simp_all add: is_space_def)
  have 4: "starts_with ''console.info'' t \<Longrightarrow>
      starts_with ''console.info'' (trim (withoutSemicolon_of t))" for t
    by (erule call_prefix_survives) (simp_all add: is_space_def)
  from assms have "starts_with ''console.log'' (trim (withoutSemicolon_of (trim line))) \<or>
      starts_with ''console.error'' (trim (withoutSemicolon_of (trim line))) \<or>
      starts_with ''console.warn'' (trim (withoutSemicolon_of (trim line))) \<or>
      starts_with ''console.info'' (trim (withoutSemicolon_of (trim line)))"
    unfolding js_output_call_def using 1 2 3 4 by blast
  then show ?thesis
    unfolding js_wrap_def Let_def by (simp only: if_True if_cancel)
qed


lemma php_wrap_output_call:
  assumes "php_output_call line"
  shows "php_wrap line (trim line) b p = line"
proof -
  have 1: "starts_with ''echo'' t \<Longrightarrow>
      starts_with ''echo'' (trim (withoutSemicolon_of t))" for t
    by (erule call_prefix_survives) (simp_all add: is_space_def)
  have 2: "starts_with ''print'' t \<Longrightarrow>
      starts_with ''print'' (trim (withoutSemicolon_of t))" for t
    by (erule call_prefix_survives) (simp_all add: is_space_def)
  have 3: "starts_with ''print_r'' t \<Longrightarrow>
      starts_with ''print_r'' (trim (withoutSemicolon_of t))" for t
    by (erule call_prefix_survives) (simp_all add: is_space_def)
  have 4: "starts_with ''var_dump'' t \<Longrightarrow>
      starts_with ''var_dump'' (trim (withoutSemicolon_of t))" for t
    by (erule call_prefix_survives) (simp_all add: is_space_def)
  have 5: "starts_with ''var_export'' t \<Longrightarrow>
      starts_with ''var_export'' (trim (withoutSemicolon_of t))" for t
    by (erule call_prefix_survives) (simp_all add: is_space_def)
  from assms have "starts_with ''echo'' (trim (withoutSemicolon_of (trim line))) \<or>
      starts_with ''print'' (trim (withoutSemicolon_of (trim line))) \<or>
      starts_with ''print_r'' (trim (withoutSemicolon_of (trim line))) \<or>
      starts_with ''var_dump'' (trim (withoutSemicolon_of (trim line))) \<or>
      starts_with ''var_export'' (trim (withoutSemicolon_of (trim line)))"
    unfolding php_output_call_def using 1 2 3 4 5 by blast
  then show ?thesis
    unfolding php_wrap_def Let_def by (simp only: if_True if_cancel)
qed

lemma scan_line_output_call:
  assumes "\<And>b p. wrap line (trim line) b p = line"
  shows "fst (scan_line wrap line st) = line"
  using assms by (simp add: scan_line_def Let_def)

lemma js_wrap_cases:
  "js_wrap line t b p = line \<or>
   js_wrap line t b p = indent_of line @ ''console.log'' @ (''('' @ withoutSemicolon_of t @ '');'')"
  by (simp add: js_wrap_def Let_def)

lemma php_wrap_cases:
  "php_wrap line t b p = line \<or>
   php_wrap line t b p = indent_of line @ ''echo'' @ ('' var_export('' @ withoutSemicolon_of t @ php_echo_tail) \<or>
   php_wrap line t b p = indent_of line @ ''echo'' @ ('' print_r('' @ withoutSemicolon_of t @ php_echo_tail)"
  by (simp add: php_wrap_def Let_def)

lemma scan_line_cases:
  "fst (scan_line wrap line st) = line \<or> (\<exists>b p. fst (scan_line wrap line st) = wrap line (trim line) b p)"
  by (auto simp: scan_line_def Let_def)

lemma js_changed_is_output_call:
  assumes "fst (scan_line js_wrap line st) \<noteq> line"
  shows "js_output_call (fst (scan_line js_wrap line st))"
proof -
  from assms obtain b p where 1: "fst (scan_line js_wrap line st) = js_wrap line (trim line) b p"
    using scan_line_cases [of js_wrap line st] by auto
  with assms have "js_wrap line (trim line) b p =
      indent_of line @ ''console.log'' @ (''('' @ withoutSemicolon_of (trim line) @ '');'')"
    using js_wrap_cases [of line "trim line" b p] by auto
  moreover have "starts_with ''console.log''
      (trim (indent_of line @ ''console.log'' @ (''('' @ withoutSemicolon_of (trim line) @ '');'')))"
  proof (rule trim_keeps_prefix)
    show "\<forall>c \<in> set (indent_of line). is_space c" by (rule indent_spaces)
  qed (simp_all add: is_space_def)
  ultimately have "starts_with ''console.log'' (trim (fst (scan_line js_wrap line st)))"
    using 1 by simp
  then show ?thesis by (simp only: js_output_call_def simp_thms)
qed

lemma php_changed_is_output_call:
  assumes "fst (scan_line php_wrap line st) \<noteq> line"
  shows "php_output_call (fst (scan_line php_wrap line st))"
proof -
  from assms obtain b p where 1: "fst (scan_line php_wrap line st) = php_wrap line (trim line) b p"
    using scan_line_cases [of php_wrap line st] by auto
  have e: "starts_with ''echo'' (trim (indent_of line @ ''echo'' @ r))" for r
  proof (rule trim_keeps_prefix)
    show "\<forall>c \<in> set (indent_of line). is_space c" by (rule indent_spaces)
  qed (simp_all add: is_space_def)
  from 1 assms have "\<exists>r. php_wrap line (trim line) b p = indent_of line @ ''echo'' @ r"
    using php_wrap_cases [of line "trim line" b p] by auto
  then obtain r where "fst (scan_line php_wrap line st) = indent_of line @ ''echo'' @ r"
    using 1 by auto
  then have "starts_with ''echo'' (trim (fst (scan_line php_wrap line st)))"
    using e [of r] by simp
  then show ?thesis by (simp only: php_output_call_def simp_thms)
qed

lemma length_scan_lines: "length (scan_lines wrap ls st) = length ls"
  by (induction ls arbitrary: st) auto

lemma scan_lines_nth:
  "i < length ls \<Longrightarrow> \<exists>st'. scan_lines wrap ls st ! i = fst (scan_line wrap (ls ! i) st')"
proof (induction ls arbitrary: i st)
  case Nil
  then show ?case by simp
next
  case (Cons l ls)
  show ?case
  proof (cases i)
    case 0
    then show ?thesis by auto
  next
    case (Suc j)
    with Cons.prems have "j < length ls" by simp
    from Cons.IH [OF this] Suc show ?thesis by simp
  qed
qed

lemma split_nl_no_LF: "l \<in> set (split_nl s) \<Longrightarrow> LF \<notin> set l"
proof (induction s arbitrary: l)
  case Nil
  then show ?case by simp
next
  case (Cons c cs)
  obtain m ms where sp: "split_nl cs = m # ms"
    using split_nl_not_Nil [of cs] by (cases "split_nl cs") auto
  show ?case
  proof (cases "c = LF")
    case True
    with Cons show ?thesis by auto
  next
    case False
    with Cons.prems sp have "l = c # m \<or> l \<in> set ms" by simp
    then show ?thesis
    proof
      assume "l = c # m"
      moreover have "LF \<notin> set m" using Cons.IH [of m] sp by simp
      ultimately show ?thesis using False by auto
    next
      assume "l \<in> set ms"
      then show ?thesis using Cons.IH [of l] sp by simp
    qed
  qed
qed

lemma split_nl_append_LF:
  "LF \<notin> set l \<Longrightarrow> split_nl (l @ LF # s) = l # split_nl s"
  by (induction l) auto

lemma split_nl_single: "LF \<notin> set l \<Longrightarrow> split_nl l = [l]"
  by (induction l) auto

lemma split_join_nl:
  "ls \<noteq> [] \<Longrightarrow> (\<forall>l \<in> set ls. LF \<notin> set l) \<Longrightarrow> split_nl (join_nl ls) = ls"
proof (induction ls rule: join_nl.induct)
  case 1
  then show ?case by simp
next
  case (2 l)
  then show ?case by (simp add: split_nl_single)
next
  case (3 l m ls)
  then show ?case by (simp add: split_nl_append_LF)
qed

lemma LF_is_space: "is_space LF"
  by (simp add: is_space_def LF_def)

lemma js_wrap_no_LF:
  assumes "LF \<notin> set line"
  shows "LF \<notin> set (js_wrap line (trim line) b p)"
proof -
  have "LF \<notin> set (indent_of line)" using assms set_indent by blast
  moreover have "LF \<notin> set (withoutSemicolon_of (trim line))"
    using assms set_withoutSemicolon set_trim by blast
  moreover have "LF \<notin> set ''console.log(''" "LF \<notin> set '');''" by (simp_all add: LF_def)
  ultimately have "LF \<notin> set (indent_of line @ ''console.log'' @ (''('' @ withoutSemicolon_of (trim line) @ '');''))"
    by (simp add: LF_def)
  with assms show ?thesis
    using js_wrap_cases [of line "trim line" b p] by auto
qed

lemma php_wrap_no_LF:
  assumes "LF \<notin> set line"
  shows "LF \<notin> set (php_wrap line (trim line) b p)"
proof -
  have "LF \<notin> set (indent_of line)" using assms set_indent by blast
  moreover have "LF \<notin> set (withoutSemicolon_of (trim line))"
    using assms set_withoutSemicolon set_trim by blast
  ultimately have
    "LF \<notin> set (indent_of line @ ''echo'' @ ('' var_export('' @ withoutSemicolon_of (trim line) @ php_echo_tail))"
    "LF \<notin> set (indent_of line @ ''echo'' @ ('' print_r('' @ withoutSemicolon_of (trim line) @ php_echo_tail))"
    by (simp_all add: LF_def php_echo_tail_def)
  with assms show ?thesis
    using php_wrap_cases [of line "trim line" b p] by auto
qed

lemma scan_lines_no_LF:
  assumes "\<And>line b p. LF \<notin> set line \<Longrightarrow> LF \<notin> set (wrap line (trim line) b p)"
    and "\<forall>l \<in> set ls. LF \<notin> set l"
  shows "\<forall>l \<in> set (scan_lines wrap ls st). LF \<notin> set l"
  using assms(2)
proof (induction ls arbitrary: st)
  case Nil
  then show ?case by simp
next
  case (Cons l ls)
  have "LF \<notin> set (fst (scan_line wrap l st))"
    using scan_line_cases [of wrap l st] assms(1) [of l] Cons.prems by auto
  with Cons show ?case by simp
qed

lemma split_scan_lines:
  assumes "\<And>line b p. LF \<notin> set line \<Longrightarrow> LF \<notin> set (wrap line (trim line) b p)"
  shows "split_nl (join_nl (scan_lines wrap (split_nl code) st)) = scan_lines wrap (split_nl code) st"
proof (rule split_join_nl)
  show "scan_lines wrap (split_nl code) st \<noteq> []"
    using length_scan_lines [of wrap "split_nl code" st] split_nl_not_Nil [of code] by auto
  show "\<forall>l \<in> set (scan_lines wrap (split_nl code) st). LF \<notin> set l"
    using assms by (intro scan_lines_no_LF [of wrap]) (auto dest: split_nl_no_LF)
qed

lemma lines_autoLogExpressions:
  "\<exists>st. split_nl (autoLogExpressions code) ! i = fst (scan_line js_wrap (split_nl code ! i) st) \<or>
        split_nl (autoLogExpressions code) = split_nl code"
  if "i < length (split_nl code)"
proof (cases "code = [] \<or> trim code = []")
  case True
  then show ?thesis by (simp add: autoLogExpressions_def)
next
  case False
  then have "split_nl (autoLogExpressions code) = scan_lines js_wrap (split_nl code) initial_scan"
    by (simp add: autoLogExpressions_def split_scan_lines js_wrap_no_LF)
  then show ?thesis using scan_lines_nth [OF that, of js_wrap initial_scan] by auto
qed

lemma lines_autoLogExpressionsPHP:
  "\<exists>st. split_nl (autoLogExpressionsPHP code) ! i = fst (scan_line php_wrap (split_nl code ! i) st) \<or>
        split_nl (autoLogExpressionsPHP code) = split_nl code"
  if "i < length (split_nl code)"
proof (cases "code = [] \<or> trim code = []")
  case True
  then show ?thesis by (simp add: autoLogExpressionsPHP_def)
next
  case False
  then have "split_nl (autoLogExpressionsPHP code) = scan_lines php_wrap (split_nl code) initial_scan"
    by (simp add: autoLogExpressionsPHP_def split_scan_lines php_wrap_no_LF)
  then show ?thesis using scan_lines_nth [OF that, of php_wrap initial_scan] by auto
qed

lemma length_autoLogExpressions:
  "length (split_nl (autoLogExpressions code)) = length (split_nl code)"
  by (simp add: autoLogExpressions_def split_scan_lines js_wrap_no_LF length_scan_lines)

lemma length_autoLogExpressionsPHP:
  "length (split_nl (autoLogExpressionsPHP code)) = length (split_nl code)"
  by (simp add: autoLogExpressionsPHP_def split_scan_lines php_wrap_no_LF length_scan_lines)

lemma js_line_kept:
  assumes "i < length (split_nl code)" and "js_output_call (split_nl code ! i)"
  shows "split_nl (autoLogExpressions code) ! i = split_nl code ! i"
  using lines_autoLogExpressions [OF assms(1)]
    scan_line_output_call [of js_wrap "split_nl code ! i"] js_wrap_output_call [OF assms(2)]
  by auto

lemma php_line_kept:
  assumes "i < length (split_nl code)" and "php_output_call (split_nl code ! i)"
  shows "split_nl (autoLogExpressionsPHP code) ! i = split_nl code ! i"
  using lines_autoLogExpressionsPHP [OF assms(1)]
    scan_line_output_call [of php_wrap "split_nl code ! i"] php_wrap_output_call [OF assms(2)]
  by auto

lemma js_line_changed:
  assumes "i < length (split_nl code)"
    and "split_nl (autoLogExpressions code) ! i \<noteq> split_nl code ! i"
  shows "js_output_call (split_nl (autoLogExpressions code) ! i)"
proof -
  from lines_autoLogExpressions [OF assms(1)] assms(2)
  obtain st where st: "split_nl (autoLogExpressions code) ! i =
      fst (scan_line js_wrap (split_nl code ! i) st)" by auto
  with assms(2) show ?thesis using js_changed_is_output_call [of "split_nl code ! i" st] by simp
qed

lemma php_line_changed:
  assumes "i < length (split_nl code)"
    and "split_nl (autoLogExpressionsPHP code) ! i \<noteq> split_nl code ! i"
  shows "php_output_call (split_nl (autoLogExpressionsPHP code) ! i)"
proof -
  from lines_autoLogExpressionsPHP [OF assms(1)] assms(2)
  obtain st where st: "split_nl (autoLogExpressionsPHP code) ! i =
      fst (scan_line php_wrap (split_nl code ! i) st)" by auto
  with assms(2) show ?thesis using php_changed_is_output_call [of "split_nl code ! i" st] by simp
qed


text \<open>
  Claim C8.  A line that already is an output call (its text, without the surrounding
  white space, starts with \<open>console.log\<close>, \<open>console.error\<close>, \<open>console.warn\<close> or
  \<open>console.info\<close> for JavaScript; with \<open>echo\<close>, \<open>print\<close>, \<open>print_r\<close>, \<open>var_dump\<close> or
  \<open>var_export\<close> for PHP) comes out of the transform as it went in, whatever the lines
  around it.  The transform keeps the number of lines; every line it changes has
  become an output call, so a second application of the transform leaves each line
  that the first application wrapped as it is: no line is wrapped twice.
\<close>

theorem autolog_keeps_output_calls:
  "(\<forall>i < length (split_nl code).
      (js_output_call (split_nl code ! i) \<longrightarrow>
         split_nl (autoLogExpressions code) ! i = split_nl code ! i) \<and>
      (php_output_call (split_nl code ! i) \<longrightarrow>
         split_nl (autoLogExpressionsPHP code) ! i = split_nl code ! i) \<and>
      (split_nl (autoLogExpressions code) ! i \<noteq> split_nl code ! i \<longrightarrow>
         js_output_call (split_nl (autoLogExpressions code) ! i) \<and>
         split_nl (autoLogExpressions (autoLogExpressions code)) ! i =
           split_nl (autoLogExpressions code) ! i) \<and>
      (split_nl (autoLogExpressionsPHP code) ! i \<noteq> split_nl code ! i \<longrightarrow>
         php_output_call (split_nl (autoLogExpressionsPHP code) ! i) \<and>
         split_nl (autoLogExpressionsPHP (autoLogExpressionsPHP code)) ! i =
           split_nl (autoLogExpressionsPHP code) ! i)) \<and>
   length (split_nl (autoLogExpressions code)) = length (split_nl code) \<and>
   length (split_nl (autoLogExpressionsPHP code)) = length (split_nl code)"
proof (intro conjI allI impI)
  fix i
  assume i: "i < length (split_nl code)"
  {
    assume "js_output_call (split_nl code ! i)"
    with i show "split_nl (autoLogExpressions code) ! i = split_nl code ! i"
      by (rule js_line_kept)
  }
  {
    assume "php_output_call (split_nl code ! i)"
    with i show "split_nl (autoLogExpressionsPHP code) ! i = split_nl code ! i"
      by (rule php_line_kept)
  }
  {
    assume "split_nl (autoLogExpressions code) ! i \<noteq> split_nl code ! i"
    with i show c: "js_output_call (split_nl (autoLogExpressions code) ! i)"
      by (rule js_line_changed)
    from i have "i < length (split_nl (autoLogExpressions code))"
      by (simp add: length_autoLogExpressions)
    then show "split_nl (autoLogExpressions (autoLogExpressions code)) ! i =
        split_nl (autoLogExpressions code) ! i"
      using c by (rule js_line_kept)
  }
  {
    assume "split_nl (autoLogExpressionsPHP code) ! i \<noteq> split_nl code ! i"
    with i show c: "php_output_call (split_nl (autoLogExpressionsPHP code) ! i)"
      by (rule php_line_changed)
    from i have "i < length (split_nl (autoLogExpressionsPHP code))"
      by (simp add: length_autoLogExpressionsPHP)
    then show "split_nl (autoLogExpressionsPHP (autoLogExpressionsPHP code)) ! i =
        split_nl (autoLogExpressionsPHP code) ! i"
      using c by (rule php_line_kept)
  }
next
  show "length (split_nl (autoLogExpressions code)) = length (split_nl code)"
    by (rule length_autoLogExpressions)
  show "length (split_nl (autoLogExpressionsPHP code)) = length (split_nl code)"
    by (rule length_autoLogExpressionsPHP)
qed



theorem autolog_keeps_output_calls_witness:
  "js_output_call ''  console.log(a)'' \<and>
   split_nl (autoLogExpressions (''a = 1'' @ [LF] @ ''  console.log(a)'')) ! 1 = ''  console.log(a)'' \<and>
   autoLogExpressions ''a'' = ''console.log(a);'' \<and>
   split_nl (autoLogExpressions (autoLogExpressions ''a'')) ! 0 = ''console.log(a);'' \<and>
   php_output_call ''echo $a;'' \<and>
   split_nl (autoLogExpressionsPHP (''$a'' @ [LF] @ ''echo $a;'')) ! 1 = ''echo $a;'' \<and>
   autoLogExpressionsPHP ''$a'' = ''echo var_export($a'' @ php_echo_tail \<and>
   split_nl (autoLogExpressionsPHP (autoLogExpressionsPHP ''$a'')) ! 0 =
     ''echo var_export($a'' @ php_echo_tail"
proof -
  have s1: "split_nl (''a = 1'' @ [LF] @ ''  console.log(a)'') = [''a = 1'', ''  console.log(a)'']"
    by (simp add: LF_def)
  have o1: "js_output_call ''  console.log(a)''"
    by (simp add: js_output_call_def trim_def is_space_def)
  have k1: "split_nl (autoLogExpressions (''a = 1'' @ [LF] @ ''  console.log(a)'')) ! 1 = ''  console.log(a)''"
    using autolog_keeps_output_calls [of "''a = 1'' @ [LF] @ ''  console.log(a)''"] s1 o1
    by (auto dest!: spec [of _ 1])
  have e1: "autoLogExpressions ''a'' = ''console.log(a);''"
    by code_simp
  have s2: "split_nl ''a'' = [''a'']" "split_nl ''console.log(a);'' = [''console.log(a);'']"
    by (simp_all add: LF_def)
  have k2: "split_nl (autoLogExpressions (autoLogExpressions ''a'')) ! 0 = ''console.log(a);''"
    using autolog_keeps_output_calls [of "''a''"] s2 e1
    by (auto dest!: spec [of _ 0])
  have s3: "split_nl (''$a'' @ [LF] @ ''echo $a;'') = [''$a'', ''echo $a;'']"
    by (simp add: LF_def)
  have o3: "php_output_call ''echo $a;''"
    by (simp add: php_output_call_def trim_def is_space_def)
  have k3: "split_nl (autoLogExpressionsPHP (''$a'' @ [LF] @ ''echo $a;'')) ! 1 = ''echo $a;''"
    using autolog_keeps_output_calls [of "''$a'' @ [LF] @ ''echo $a;''"] s3 o3
    by (auto dest!: spec [of _ 1])
  have e4: "autoLogExpressionsPHP ''$a'' = ''echo var_export($a'' @ php_echo_tail"
    by code_simp
  have s4: "split_nl ''$a'' = [''$a'']"
    "split_nl (''echo var_export($a'' @ php_echo_tail) = [''echo var_export($a'' @ php_echo_tail]"
    by (simp_all add: LF_def php_echo_tail_def)
  have n4: "''echo var_export($a'' @ php_echo_tail \<noteq> ''$a''"
    by (simp add: php_echo_tail_def)
  have k4: "split_nl (autoLogExpressionsPHP (autoLogExpressionsPHP ''$a'')) ! 0 =
      ''echo var_export($a'' @ php_echo_tail"
    using autolog_keeps_output_calls [of "''$a''"] s4 e4 n4
    by (auto dest!: spec [of _ 0])
  from o1 k1 e1 k2 o3 k3 e4 k4 show ?thesis by (intro conjI)
qed


subsection \<open>Probe entries\<close>





lemma increasing_sorted: "sorted_wrt (<) (xs :: nat list) \<Longrightarrow> sorted xs"
  by (induction xs) (auto simp: less_imp_le)


























end
